theory Spec2Isabelle
  imports Main "HOL-Library.Sublist"
begin

section \<open>JavaScript values and strings\<close>

text \<open>
  The library is written in JavaScript.  A string is modelled as the list of the bytes of
  its UTF-8 encoding (\<open>string\<close>): a character of the ASCII range is one byte, any other
  character is a sequence of two to four bytes from 0x80 on.  The operations below are
  the string methods the sources call.  An argument that the sources test with \<open>!x\<close> or
  \<open>typeof x\<close> is a \<open>js_value\<close>.
\<close>

datatype js_value =
    JUndefined
  | JNull
  | JBoolean bool
  | JNumber int
  | JString string
  | JObject

text \<open>\<open>!v\<close> is true for the falsy values.\<close>

fun falsy :: "js_value \<Rightarrow> bool" where
  "falsy JUndefined = True"
| "falsy JNull = True"
| "falsy (JBoolean b) = (\<not> b)"
| "falsy (JNumber n) = (n = 0)"
| "falsy (JString s) = (s = [])"
| "falsy JObject = False"

fun typeof_string :: "js_value \<Rightarrow> bool" where
  "typeof_string (JString s) = True"
| "typeof_string v = False"

text \<open>
  \<open>s.trim()\<close> removes the white space and the line terminators of the language from
  both ends of the string: the characters U+0009 to U+000D, U+0020, U+00A0, U+1680,
  U+2000 to U+200A, U+2028, U+2029, U+202F, U+205F, U+3000 and U+FEFF, listed here by
  their encodings.
\<close>

definition whiteSpace :: "string list" where
  "whiteSpace =
     [[CHR 0x09], [CHR 0x0A], [CHR 0x0B], [CHR 0x0C], [CHR 0x0D], [CHR 0x20],
      [CHR 0xC2, CHR 0xA0],
      [CHR 0xE1, CHR 0x9A, CHR 0x80],
      [CHR 0xE2, CHR 0x80, CHR 0x80], [CHR 0xE2, CHR 0x80, CHR 0x81],
      [CHR 0xE2, CHR 0x80, CHR 0x82], [CHR 0xE2, CHR 0x80, CHR 0x83],
      [CHR 0xE2, CHR 0x80, CHR 0x84], [CHR 0xE2, CHR 0x80, CHR 0x85],
      [CHR 0xE2, CHR 0x80, CHR 0x86], [CHR 0xE2, CHR 0x80, CHR 0x87],
      [CHR 0xE2, CHR 0x80, CHR 0x88], [CHR 0xE2, CHR 0x80, CHR 0x89],
      [CHR 0xE2, CHR 0x80, CHR 0x8A],
      [CHR 0xE2, CHR 0x80, CHR 0xA8], [CHR 0xE2, CHR 0x80, CHR 0xA9],
      [CHR 0xE2, CHR 0x80, CHR 0xAF],
      [CHR 0xE2, CHR 0x81, CHR 0x9F],
      [CHR 0xE3, CHR 0x80, CHR 0x80],
      [CHR 0xEF, CHR 0xBB, CHR 0xBF]]"

text \<open>Removes from the front of a string, as long as there is one, any of the given codes.\<close>

fun stripLeading :: "string list \<Rightarrow> string \<Rightarrow> string" where
  "stripLeading codes [] = []"
| "stripLeading codes (c # r) =
     (case find (\<lambda>ws. ws \<noteq> [] \<and> prefix ws (c # r)) codes of
        None \<Rightarrow> c # r
      | Some ws \<Rightarrow> stripLeading codes (drop (length ws - 1) r))"

definition trimStart :: "string \<Rightarrow> string" where
  "trimStart s = stripLeading whiteSpace s"

definition trimEnd :: "string \<Rightarrow> string" where
  "trimEnd s = rev (stripLeading (map rev whiteSpace) (rev s))"

definition trim :: "string \<Rightarrow> string" where
  "trim s = trimEnd (trimStart s)"

text \<open>
  \<open>s.toLowerCase()\<close> maps the letters \<open>A\<close> to \<open>Z\<close> to \<open>a\<close> to \<open>z\<close>.  The bytes from 0x80
  on are left as they are: the sources only test whether the result starts with
  \<open>user-agent:\<close>, \<open>disallow:\<close> or \<open>allow:\<close>, and the lower-case form of a character
  outside ASCII holds no character of these words in a place where it could complete
  one (the Kelvin sign gives \<open>k\<close>; the dotted capital I gives \<open>i\<close> followed by U+0307).
\<close>

definition lowerChar :: "char \<Rightarrow> char" where
  "lowerChar c = (let n = (of_char c :: nat) in if 65 \<le> n \<and> n \<le> 90 then char_of (n + 32) else c)"

definition toLowerCase :: "string \<Rightarrow> string" where
  "toLowerCase s = map lowerChar s"

definition startsWith :: "string \<Rightarrow> string \<Rightarrow> bool" where
  "startsWith s p = prefix p s"

definition endsWith :: "string \<Rightarrow> string \<Rightarrow> bool" where
  "endsWith s p = suffix p s"

definition str_includes :: "string \<Rightarrow> string \<Rightarrow> bool" where
  "str_includes s p = sublist p s"

text \<open>
  \<open>s.substring(n)\<close> and \<open>s.slice(0, -1)\<close>: the sources call them where the characters
  cut off are ASCII characters (the \<open>n\<close> characters of a directive's name, a final
  \<open>/\<close> or \<open>*\<close>).
\<close>

definition substring_from :: "nat \<Rightarrow> string \<Rightarrow> string" where
  "substring_from n s = drop n s"

definition slice_0_minus1 :: "string \<Rightarrow> string" where
  "slice_0_minus1 s = butlast s"

text \<open>
  \<open>s.substring(0, n)\<close> keeps the first \<open>n\<close> UTF-16 code units of the string: a
  character that UTF-8 encodes in four bytes counts for two units, any other character
  for one.  When the cut falls inside a character of two units, the half that
  JavaScript keeps is no character and has no encoding; it is left out here.
\<close>

definition charBytes :: "char \<Rightarrow> nat" where
  "charBytes c = (let b = (of_char c :: nat) in
     if b < 0x80 then 1 else if b < 0xE0 then 2 else if b < 0xF0 then 3 else 4)"

fun substring_0 :: "nat \<Rightarrow> string \<Rightarrow> string" where
  "substring_0 0 s = []"
| "substring_0 (Suc n) [] = []"
| "substring_0 (Suc n) (c # r) =
     (let k = charBytes c in
      if k = 4 then (if n = 0 then [] else take 4 (c # r) @ substring_0 (n - 1) (drop 3 r))
      else take k (c # r) @ substring_0 n (drop (k - 1) r))"

text \<open>\<open>s.split(c)\<close> for a one-character separator: \<open>''''.split(c)\<close> is \<open>['''']\<close>.\<close>

fun split_char :: "char \<Rightarrow> string \<Rightarrow> string list" where
  "split_char c [] = [[]]"
| "split_char c (x # xs) =
     (if x = c then [] # split_char c xs
      else (case split_char c xs of
              [] \<Rightarrow> [[x]]
            | l # ls \<Rightarrow> (x # l) # ls))"

section \<open>The platform's URL class\<close>

text \<open>
  \<open>new URL(s)\<close> is the platform's URL parser; it is not part of the repository, so every
  function that calls it takes the parser as its first argument: a function that returns
  \<open>None\<close> where \<open>new URL\<close> throws.  A parsed URL is the record of the components the
  sources read.  \<open>hostname\<close>, \<open>query\<close> and \<open>fragment\<close> are \<open>None\<close> where the URL
  standard has a null host, query or fragment; \<open>searchParams\<close> is the decoded list of
  name-value pairs of the query.
\<close>

record url =
  protocol :: string
  username :: string
  password :: string
  hostname :: "string option"
  port :: string
  pathname :: string
  query :: "string option"
  searchParams :: "(string \<times> string) list"
  fragment :: "string option"

type_synonym url_parser = "string \<Rightarrow> url option"

definition hexDigit :: "nat \<Rightarrow> char" where
  "hexDigit n = ''0123456789ABCDEF'' ! (n mod 16)"

definition percentByte :: "char \<Rightarrow> string" where
  "percentByte c = (let n = (of_char c :: nat) in [CHR ''%'', hexDigit (n div 16), hexDigit n])"

definition isAlnum :: "char \<Rightarrow> bool" where
  "isAlnum c = (let n = (of_char c :: nat) in
     (48 \<le> n \<and> n \<le> 57) \<or> (65 \<le> n \<and> n \<le> 90) \<or> (97 \<le> n \<and> n \<le> 122))"

text \<open>
  The serializer of \<open>URLSearchParams\<close> (application/x-www-form-urlencoded): letters,
  digits and \<open>*-._\<close> stay, a space becomes \<open>+\<close>, every other byte is percent-encoded.
\<close>

definition formEncodeChar :: "char \<Rightarrow> string" where
  "formEncodeChar c =
     (if isAlnum c \<or> c \<in> set ''*-._'' then [c]
      else if c = CHR '' '' then ''+''
      else percentByte c)"

definition formEncode :: "string \<Rightarrow> string" where
  "formEncode s = concat (map formEncodeChar s)"

fun joinWith :: "string \<Rightarrow> string list \<Rightarrow> string" where
  "joinWith sep [] = []"
| "joinWith sep [x] = x"
| "joinWith sep (x # y # ys) = x @ sep @ joinWith sep (y # ys)"

definition serializeParams :: "(string \<times> string) list \<Rightarrow> string" where
  "serializeParams ps = joinWith ''&'' (map (\<lambda>(k, v). formEncode k @ ''='' @ formEncode v) ps)"

text \<open>
  \<open>urlObj.searchParams.delete(name)\<close> removes every pair of that name and then updates
  the URL's query to the serialization of the list (null when the list is empty); the
  update runs whether or not a pair was removed.
\<close>

definition searchParams_delete :: "string \<Rightarrow> url \<Rightarrow> url" where
  "searchParams_delete name u =
     (let ps = filter (\<lambda>(k, v). k \<noteq> name) (searchParams u);
          q = serializeParams ps
      in u\<lparr>searchParams := ps, query := (if q = [] then None else Some q)\<rparr>)"

text \<open>\<open>urlObj.toString()\<close>, the serialization (href) of the URL.\<close>

definition userinfo :: "url \<Rightarrow> string" where
  "userinfo u =
     (if username u = [] \<and> password u = [] then []
      else username u @ (if password u = [] then [] else '':'' @ password u) @ ''@'')"

definition url_before_path :: "url \<Rightarrow> string" where
  "url_before_path u =
     protocol u
     @ (case hostname u of
          None \<Rightarrow> []
        | Some h \<Rightarrow> ''//'' @ userinfo u @ h @ (if port u = [] then [] else '':'' @ port u))"

definition url_toString :: "url \<Rightarrow> string" where
  "url_toString u =
     url_before_path u
     @ pathname u
     @ (case query u of None \<Rightarrow> [] | Some q \<Rightarrow> ''?'' @ q)
     @ (case fragment u of None \<Rightarrow> [] | Some f \<Rightarrow> ''#'' @ f)"

text \<open>The getters \<open>urlObj.hostname\<close> and \<open>urlObj.search\<close>.\<close>

definition url_hostname :: "url \<Rightarrow> string" where
  "url_hostname u = (case hostname u of None \<Rightarrow> [] | Some h \<Rightarrow> h)"

definition url_search :: "url \<Rightarrow> string" where
  "url_search u = (case query u of None \<Rightarrow> [] | Some q \<Rightarrow> if q = [] then [] else ''?'' @ q)"

section \<open>utils.js\<close>

subsection \<open>normalizeUrl\<close>

definition trackingParams :: "string list" where
  "trackingParams =
     [''utm_source'', ''utm_medium'', ''utm_campaign'', ''utm_term'', ''utm_content'',
      ''ref'', ''source'', ''fbclid'', ''gclid'', ''msclkid'', ''twclid'',
      ''igshid'', ''_ga'', ''_gid'', ''mc_cid'', ''mc_eid'']"

text \<open>The body of the \<open>try\<close> block once \<open>new URL(url)\<close> has returned \<open>urlObj\<close>.\<close>

definition removeTracking :: "url \<Rightarrow> url" where
  "removeTracking urlObj = fold searchParams_delete trackingParams urlObj"

definition normalizeParsed :: "url \<Rightarrow> string" where
  "normalizeParsed urlObj0 =
     (let urlObj = removeTracking urlObj0;
          normalized = url_toString urlObj
      in if endsWith normalized ''/'' \<and> pathname urlObj \<noteq> ''/''
         then slice_0_minus1 normalized
         else normalized)"

definition normalizeUrl :: "url_parser \<Rightarrow> js_value \<Rightarrow> string" where
  "normalizeUrl newURL url =
     (if falsy url \<or> \<not> typeof_string url then []
      else (case url of
              JString s \<Rightarrow>
                (case newURL s of
                   Some urlObj \<Rightarrow> normalizeParsed urlObj
                 | None \<Rightarrow> s)
            | _ \<Rightarrow> []))"

subsection \<open>pathMatchesRule and checkRobotsTxt\<close>

definition pathMatchesRule :: "string \<Rightarrow> string \<Rightarrow> bool" where
  "pathMatchesRule path rule =
     (if rule = [] \<or> path = [] then False
      else if path = rule then True
      else if endsWith rule ''*'' then startsWith path (slice_0_minus1 rule)
      else if startsWith path rule then True
      else False)"

record robots_state =
  currentUserAgent :: "string option"
  disallowRules :: "string list"
  allowRules :: "string list"

text \<open>One iteration of the loop over the lines, \<open>line\<close> being trimmed already.\<close>

definition robotsLine :: "string \<Rightarrow> string \<Rightarrow> robots_state \<Rightarrow> robots_state" where
  "robotsLine userAgent line st =
     (let lowerLine = toLowerCase line in
      if startsWith lowerLine ''user-agent:'' then
        (let agent = trim (substring_from 11 line) in
         if agent = ''*'' \<or> str_includes userAgent agent
         then \<lparr>currentUserAgent = Some agent, disallowRules = [], allowRules = []\<rparr>
         else st\<lparr>currentUserAgent := None\<rparr>)
      else if currentUserAgent st \<noteq> None then
        (if startsWith lowerLine ''disallow:'' then
           (let rule = trim (substring_from 9 line) in
            if rule \<noteq> [] then st\<lparr>disallowRules := disallowRules st @ [rule]\<rparr>
            else st\<lparr>disallowRules := []\<rparr>)
         else if startsWith lowerLine ''allow:'' then
           (let rule = trim (substring_from 6 line) in
            if rule \<noteq> [] then st\<lparr>allowRules := allowRules st @ [rule]\<rparr>
            else st)
         else st)
      else st)"

definition robotsInit :: robots_state where
  "robotsInit = \<lparr>currentUserAgent = None, disallowRules = [], allowRules = []\<rparr>"

definition robotsScan :: "string \<Rightarrow> string list \<Rightarrow> robots_state" where
  "robotsScan userAgent lines = fold (robotsLine userAgent) lines robotsInit"

text \<open>The second loop: the first matching disallow rule without an allow override decides.\<close>

fun checkRules :: "string \<Rightarrow> string list \<Rightarrow> string list \<Rightarrow> bool" where
  "checkRules path allows [] = True"
| "checkRules path allows (rule # rules) =
     (if pathMatchesRule path rule
      then (let hasAllowOverride = list_ex (\<lambda>allowRule. pathMatchesRule path allowRule) allows
            in if \<not> hasAllowOverride then False else checkRules path allows rules)
      else checkRules path allows rules)"

definition checkRobotsTxt :: "js_value \<Rightarrow> string \<Rightarrow> string \<Rightarrow> bool" where
  "checkRobotsTxt robotsTxt userAgent path =
     (if falsy robotsTxt \<or> \<not> typeof_string robotsTxt then True
      else (case robotsTxt of
              JString s \<Rightarrow>
                (let lines = map trim (split_char CHR 0x0A s);
                     st = robotsScan userAgent lines
                 in checkRules path (allowRules st) (disallowRules st))
            | _ \<Rightarrow> True))"

subsection \<open>The last applicable record of a robots.txt file\<close>

text \<open>
  The rule set as the specification words it: the lines are cut into records at the
  \<open>User-agent:\<close> lines, a record applies when its agent is \<open>*\<close> or a substring of the
  caller's user agent, and the rules are those gathered within the last applicable
  record alone.  These definitions follow the specification, not the loop of
  \<open>checkRobotsTxt\<close>; the two are compared below.
\<close>

definition isUserAgentLine :: "string \<Rightarrow> bool" where
  "isUserAgentLine line = startsWith (toLowerCase line) ''user-agent:''"

definition declaredAgent :: "string \<Rightarrow> string" where
  "declaredAgent line = trim (substring_from 11 line)"

definition agentApplies :: "string \<Rightarrow> string \<Rightarrow> bool" where
  "agentApplies userAgent agent = (agent = ''*'' \<or> str_includes userAgent agent)"

fun robotsRecords :: "string list \<Rightarrow> (string \<times> string list) list" where
  "robotsRecords [] = []"
| "robotsRecords (l # ls) =
     (if isUserAgentLine l
      then (declaredAgent l, takeWhile (\<lambda>x. \<not> isUserAgentLine x) ls) # robotsRecords ls
      else robotsRecords ls)"

definition recordDirective :: "string \<Rightarrow> string list \<times> string list \<Rightarrow> string list \<times> string list" where
  "recordDirective line rules =
     (let lowerLine = toLowerCase line in
      if startsWith lowerLine ''disallow:'' then
        (let rule = trim (substring_from 9 line) in
         if rule \<noteq> [] then (fst rules @ [rule], snd rules) else ([], snd rules))
      else if startsWith lowerLine ''allow:'' then
        (let rule = trim (substring_from 6 line) in
         if rule \<noteq> [] then (fst rules, snd rules @ [rule]) else rules)
      else rules)"

definition recordRules :: "string list \<Rightarrow> string list \<times> string list" where
  "recordRules body = fold recordDirective body ([], [])"

definition lastApplicableRules :: "string \<Rightarrow> string list \<Rightarrow> string list \<times> string list" where
  "lastApplicableRules userAgent lines =
     (case filter (\<lambda>r. agentApplies userAgent (fst r)) (robotsRecords lines) of
        [] \<Rightarrow> ([], [])
      | r # rs \<Rightarrow> recordRules (snd (last (r # rs))))"

definition robotsLines :: "string \<Rightarrow> string list" where
  "robotsLines s = map trim (split_char CHR 0x0A s)"

text \<open>The two rule lists of a state of the loop, as a pair.\<close>

definition rulesOf :: "robots_state \<Rightarrow> string list \<times> string list" where
  "rulesOf st = (disallowRules st, allowRules st)"

text \<open>
  The matching relation as the specification words it: exact equality, or prefix
  match, or, for a rule that ends in \<open>*\<close>, prefix match with the rule without that \<open>*\<close>.
\<close>

definition ruleMatches :: "string \<Rightarrow> string \<Rightarrow> bool" where
  "ruleMatches path rule =
     (path = rule \<or> prefix rule path \<or> (suffix ''*'' rule \<and> prefix (butlast rule) path))"

text \<open>A URL for the examples: \<open>https://example.com/path/?a=1\<close>.\<close>

definition url_with_query :: url where
  "url_with_query =
     \<lparr>protocol = ''https:'', username = [], password = [], hostname = Some ''example.com'',
      port = [], pathname = ''/path/'', query = Some ''a=1'', searchParams = [(''a'', ''1'')],
      fragment = None\<rparr>"

definition url_with_tracking :: url where
  "url_with_tracking =
     \<lparr>protocol = ''https:'', username = [], password = [], hostname = Some ''example.com'',
      port = [], pathname = ''/path/'', query = Some ''ref=x'', searchParams = [(''ref'', ''x'')],
      fragment = None\<rparr>"

section \<open>The platform's URI functions\<close>

text \<open>
  \<open>encodeURIComponent\<close> leaves letters, digits and \<open>-_.!~*'()\<close> as they are and writes
  every other byte of the UTF-8 encoding as \<open>%XX\<close>.
\<close>

definition uriUnreserved :: "char \<Rightarrow> bool" where
  "uriUnreserved c = (isAlnum c \<or> c \<in> set ''-_.!~*()'' \<or> c = CHR 0x27)"

definition encodeURIComponent :: "string \<Rightarrow> string" where
  "encodeURIComponent s = concat (map (\<lambda>c. if uriUnreserved c then [c] else percentByte c) s)"

text \<open>
  \<open>decodeURIComponent\<close> throws a URIError (here \<open>None\<close>) when a \<open>%\<close> is not followed by
  two hexadecimal digits, or when the escaped bytes from 0x80 on are not well-formed
  UTF-8.  The string is read first into literal characters and escaped bytes.
\<close>

definition hexVal :: "char \<Rightarrow> nat option" where
  "hexVal c = (let n = (of_char c :: nat) in
     if 48 \<le> n \<and> n \<le> 57 then Some (n - 48)
     else if 65 \<le> n \<and> n \<le> 70 then Some (n - 55)
     else if 97 \<le> n \<and> n \<le> 102 then Some (n - 87)
     else None)"

datatype uri_item = Lit char | Esc nat

fun uriItems :: "string \<Rightarrow> uri_item list option" where
  "uriItems [] = Some []"
| "uriItems (c # h1 # h2 # r) =
     (if c = CHR ''%'' then
        (case (hexVal h1, hexVal h2) of
           (Some a, Some b) \<Rightarrow> map_option ((#) (Esc (16 * a + b))) (uriItems r)
         | _ \<Rightarrow> None)
      else map_option ((#) (Lit c)) (uriItems (h1 # h2 # r)))"
| "uriItems (c # r) =
     (if c = CHR ''%'' then None else map_option ((#) (Lit c)) (uriItems r))"

text \<open>
  The ranges of the bytes that must follow a leading byte in well-formed UTF-8.
\<close>

definition utf8Tail :: "nat \<Rightarrow> (nat \<times> nat) list option" where
  "utf8Tail b =
     (if 0xC2 \<le> b \<and> b \<le> 0xDF then Some [(0x80, 0xBF)]
      else if b = 0xE0 then Some [(0xA0, 0xBF), (0x80, 0xBF)]
      else if b = 0xED then Some [(0x80, 0x9F), (0x80, 0xBF)]
      else if 0xE1 \<le> b \<and> b \<le> 0xEF then Some [(0x80, 0xBF), (0x80, 0xBF)]
      else if b = 0xF0 then Some [(0x90, 0xBF), (0x80, 0xBF), (0x80, 0xBF)]
      else if 0xF1 \<le> b \<and> b \<le> 0xF3 then Some [(0x80, 0xBF), (0x80, 0xBF), (0x80, 0xBF)]
      else if b = 0xF4 then Some [(0x80, 0x8F), (0x80, 0xBF), (0x80, 0xBF)]
      else None)"

text \<open>The first argument holds the ranges of the continuation bytes still expected.\<close>

fun decodeItems :: "(nat \<times> nat) list \<Rightarrow> uri_item list \<Rightarrow> string option" where
  "decodeItems [] [] = Some []"
| "decodeItems (p # ps) [] = None"
| "decodeItems [] (Lit c # r) = map_option ((#) c) (decodeItems [] r)"
| "decodeItems (p # ps) (Lit c # r) = None"
| "decodeItems [] (Esc b # r) =
     (if b < 0x80 then map_option ((#) (char_of b)) (decodeItems [] r)
      else (case utf8Tail b of
              None \<Rightarrow> None
            | Some ranges \<Rightarrow> map_option ((#) (char_of b)) (decodeItems ranges r)))"
| "decodeItems (p # ps) (Esc b # r) =
     (if fst p \<le> b \<and> b \<le> snd p then map_option ((#) (char_of b)) (decodeItems ps r)
      else None)"

definition decodeURIComponent :: "string \<Rightarrow> string option" where
  "decodeURIComponent s =
     (case uriItems s of None \<Rightarrow> None | Some items \<Rightarrow> decodeItems [] items)"

section \<open>parser.js\<close>

text \<open>\<open>s.split(sep)\<close> for a string separator; an empty separator cuts between characters.\<close>

fun splitFrom :: "string \<Rightarrow> nat \<Rightarrow> string \<Rightarrow> string \<Rightarrow> string list" where
  "splitFrom sep skip cur [] = [rev cur]"
| "splitFrom sep skip cur (x # xs) =
     (if 0 < skip then splitFrom sep (skip - 1) cur xs
      else if prefix sep (x # xs) then rev cur # splitFrom sep (length sep - 1) [] xs
      else splitFrom sep 0 (x # cur) xs)"

definition splitOn :: "string \<Rightarrow> string \<Rightarrow> string list" where
  "splitOn sep s = (if sep = [] then map (\<lambda>c. [c]) s else splitFrom sep 0 [] s)"

text \<open>
  \<open>rawUrl.split('uddg=')[1]\<close> handed to \<open>decodeURIComponent\<close>: a missing element is
  \<open>undefined\<close>, which the function reads as the string \<open>undefined\<close>.
\<close>

definition splitSecond :: "string \<Rightarrow> string \<Rightarrow> string" where
  "splitSecond sep s = (case splitOn sep s of a # b # rest \<Rightarrow> b | _ \<Rightarrow> ''undefined'')"

text \<open>
  \<open>rawUrl.match(/uddg=([^&]+)/)\<close>: the capture of the leftmost match, or \<open>None\<close> for
  \<open>null\<close>.
\<close>

fun matchUddg :: "string \<Rightarrow> string option" where
  "matchUddg [] = None"
| "matchUddg (c # r) =
     (if prefix ''uddg='' (c # r) then
        (let cap = takeWhile (\<lambda>x. x \<noteq> CHR ''&'') (drop 5 (c # r))
         in if cap \<noteq> [] then Some cap else matchUddg r)
      else matchUddg r)"

text \<open>The variable \<open>url\<close> of parseSearchHtml once the redirect has been unwrapped.\<close>

definition decodeMatch :: "string \<Rightarrow> string" where
  "decodeMatch rawUrl =
     (case matchUddg rawUrl of
        Some m \<Rightarrow> (case decodeURIComponent m of Some d \<Rightarrow> d | None \<Rightarrow> rawUrl)
      | None \<Rightarrow> rawUrl)"

definition unwrapRedirect :: "string \<Rightarrow> string" where
  "unwrapRedirect rawUrl =
     (if startsWith rawUrl ''/l/?uddg='' then
        (case decodeURIComponent (splitSecond ''uddg='' rawUrl) of
           Some decoded \<Rightarrow> decoded
         | None \<Rightarrow> decodeMatch rawUrl)
      else if startsWith rawUrl ''/l/?kh='' then decodeMatch rawUrl
      else rawUrl)"

subsection \<open>extractDomain\<close>

text \<open>\<open>s.replace(/^www\./, '')\<close>.\<close>

definition stripWww :: "string \<Rightarrow> string" where
  "stripWww s = (if prefix ''www.'' s then drop 4 s else s)"

text \<open>\<open>url.match(/https?:\/\/([^\/]+)/)\<close>: the capture of the leftmost match.\<close>

definition hostCapture :: "string \<Rightarrow> string \<Rightarrow> string option" where
  "hostCapture scheme s =
     (if prefix scheme s
      then (let cap = takeWhile (\<lambda>x. x \<noteq> CHR ''/'') (drop (length scheme) s)
            in if cap \<noteq> [] then Some cap else None)
      else None)"

fun matchHttpHost :: "string \<Rightarrow> string option" where
  "matchHttpHost [] = None"
| "matchHttpHost (c # r) =
     (case hostCapture ''https://'' (c # r) of
        Some cap \<Rightarrow> Some cap
      | None \<Rightarrow>
          (case hostCapture ''http://'' (c # r) of
             Some cap \<Rightarrow> Some cap
           | None \<Rightarrow> matchHttpHost r))"

definition extractDomain :: "url_parser \<Rightarrow> string \<Rightarrow> string" where
  "extractDomain newURL u =
     (if u = [] then []
      else (case newURL u of
              Some urlObj \<Rightarrow> stripWww (url_hostname urlObj)
            | None \<Rightarrow> (case matchHttpHost u of Some m \<Rightarrow> stripWww m | None \<Rightarrow> [])))"

subsection \<open>parseSearchHtml\<close>

text \<open>
  A search result.  \<open>resultUrl\<close> is the field \<open>url\<close>; \<open>cached\<close> is \<open>None\<close> while the
  object has no such property.
\<close>

record search_result =
  title :: string
  resultUrl :: string
  snippet :: string
  rank :: nat
  source :: string
  retrievedAt :: string
  cached :: "bool option"

text \<open>
  The HTML is read by the cheerio package, which is not part of the repository.  The
  parser takes \<open>cheerio.load\<close> as a parameter that returns what the selectors of
  parseSearchHtml find: for every element of \<open>div.result, div.web-result\<close>, in document
  order, the text and \<open>href\<close> of its \<open>a.result__a, a.result-link\<close>, the text of its
  \<open>a.result__snippet, div.result__snippet\<close>, of its \<open>span.result__snippet\<close> and of its
  \<open>span.result__url, a.result__url\<close>; and for every element of \<open>div[class*="result"]\<close>
  the text and \<open>href\<close> of its first link and its own text.
\<close>

record result_block =
  linkText :: string
  linkHref :: "string option"
  snippetText :: string
  spanSnippetText :: string
  urlText :: string

record generic_block =
  firstLinkText :: string
  firstLinkHref :: "string option"
  blockText :: string

record document =
  resultBlocks :: "result_block list"
  genericBlocks :: "generic_block list"

type_synonym html_loader = "string \<Rightarrow> document"

text \<open>\<open>a || b\<close> on strings.\<close>

definition orElse :: "string \<Rightarrow> string \<Rightarrow> string" where
  "orElse a b = (if a \<noteq> [] then a else b)"

definition hrefOrEmpty :: "string option \<Rightarrow> string" where
  "hrefOrEmpty h = (case h of None \<Rightarrow> [] | Some s \<Rightarrow> s)"

text \<open>
  The callback of the first \<open>each\<close>: \<open>results\<close> is the array built so far, and the
  loop stops (\<open>return false\<close>) once it holds \<open>maxResults\<close> entries.  \<open>now\<close> is
  \<open>new Date().toISOString()\<close>.
\<close>

fun primaryEach ::
  "url_parser \<Rightarrow> string \<Rightarrow> nat \<Rightarrow> result_block list \<Rightarrow> search_result list \<Rightarrow> search_result list"
where
  "primaryEach newURL now maxResults [] results = results"
| "primaryEach newURL now maxResults (b # bs) results =
     (if length results \<ge> maxResults then results
      else
        (let t = trim (linkText b);
             rawUrl = hrefOrEmpty (linkHref b);
             u = unwrapRedirect rawUrl;
             snip = orElse (trim (snippetText b)) (orElse (trim (spanSnippetText b)) []);
             src = orElse (trim (urlText b)) (extractDomain newURL u)
         in if t \<noteq> [] \<or> u \<noteq> [] then
              (let normalizedUrl = normalizeUrl newURL (JString u) in
               primaryEach newURL now maxResults bs
                 (results @
                  [\<lparr>title = orElse t ''Untitled'',
                    resultUrl = normalizedUrl,
                    snippet = orElse snip [],
                    rank = length results + 1,
                    source = orElse src (extractDomain newURL normalizedUrl),
                    retrievedAt = now,
                    cached = None\<rparr>]))
            else primaryEach newURL now maxResults bs results))"

text \<open>\<open>s.replace(t, '')\<close> with a string pattern removes the first occurrence.\<close>

fun removeFirst :: "string \<Rightarrow> string \<Rightarrow> string" where
  "removeFirst pat [] = []"
| "removeFirst pat (c # r) =
     (if prefix pat (c # r) then drop (length pat) (c # r) else c # removeFirst pat r)"

fun fallbackEach ::
  "url_parser \<Rightarrow> string \<Rightarrow> nat \<Rightarrow> generic_block list \<Rightarrow> search_result list \<Rightarrow> search_result list"
where
  "fallbackEach newURL now maxResults [] results = results"
| "fallbackEach newURL now maxResults (b # bs) results =
     (if length results \<ge> maxResults then results
      else
        (let t = trim (firstLinkText b);
             u = hrefOrEmpty (firstLinkHref b);
             snip = trim (removeFirst t (trim (blockText b)))
         in if t \<noteq> [] \<or> u \<noteq> [] then
              fallbackEach newURL now maxResults bs
                (results @
                 [\<lparr>title = orElse t ''Untitled'',
                   resultUrl = normalizeUrl newURL (JString u),
                   snippet = substring_0 200 snip,
                   rank = length results + 1,
                   source = extractDomain newURL u,
                   retrievedAt = now,
                   cached = None\<rparr>])
            else fallbackEach newURL now maxResults bs results))"

definition parseSearchHtml ::
  "url_parser \<Rightarrow> html_loader \<Rightarrow> string \<Rightarrow> js_value \<Rightarrow> nat option \<Rightarrow> search_result list"
where
  "parseSearchHtml newURL load now html maxResultsOpt =
     (let maxResults = (case maxResultsOpt of None \<Rightarrow> 10 | Some m \<Rightarrow> m) in
      if falsy html \<or> \<not> typeof_string html then []
      else (case html of
              JString s \<Rightarrow>
                (let doc = load s;
                     results = primaryEach newURL now maxResults (resultBlocks doc) []
                 in if length results = 0
                    then fallbackEach newURL now maxResults (genericBlocks doc) results
                    else results)
            | _ \<Rightarrow> []))"

text \<open>
  A result block is well formed when the loop emits a result for it: it has a title
  or a URL.
\<close>

definition wellFormedBlock :: "result_block \<Rightarrow> bool" where
  "wellFormedBlock b =
     (trim (linkText b) \<noteq> [] \<or> unwrapRedirect (hrefOrEmpty (linkHref b)) \<noteq> [])"

definition wellFormedGeneric :: "generic_block \<Rightarrow> bool" where
  "wellFormedGeneric b = (trim (firstLinkText b) \<noteq> [] \<or> hrefOrEmpty (firstLinkHref b) \<noteq> [])"

text \<open>
  Documents for the examples: three result blocks of the test suite's shape, and one
  block whose link is a redirect with a second parameter after \<open>uddg\<close>.
\<close>

definition title_block :: result_block where
  "title_block =
     \<lparr>linkText = ''Title'', linkHref = Some ''https://example.com'',
      snippetText = ''Snippet'', spanSnippetText = [], urlText = []\<rparr>"

definition three_blocks :: document where
  "three_blocks = \<lparr>resultBlocks = [title_block, title_block, title_block], genericBlocks = []\<rparr>"

text \<open>
  A document with a block whose link text is white space only (a space, a no-break
  space and a line feed) and a block with neither link text nor \<open>href\<close>.
\<close>

definition untitled_block :: result_block where
  "untitled_block =
     \<lparr>linkText = [CHR 0x20, CHR 0xC2, CHR 0xA0, CHR 0x0A], linkHref = Some ''https://example.com/a'',
      snippetText = [], spanSnippetText = [], urlText = []\<rparr>"

definition blank_block :: result_block where
  "blank_block =
     \<lparr>linkText = [CHR 0xC2, CHR 0xA0], linkHref = None,
      snippetText = ''Snippet'', spanSnippetText = [], urlText = []\<rparr>"

definition mixed_blocks :: document where
  "mixed_blocks =
     \<lparr>resultBlocks = [title_block, blank_block, untitled_block, title_block], genericBlocks = []\<rparr>"

definition redirect_block :: result_block where
  "redirect_block =
     \<lparr>linkText = ''Example'', linkHref = Some ''/l/?uddg=https%3A%2F%2Fexample.com&rut=abc'',
      snippetText = [], spanSnippetText = [], urlText = []\<rparr>"

definition redirect_document :: document where
  "redirect_document = \<lparr>resultBlocks = [redirect_block], genericBlocks = []\<rparr>"

section \<open>cache.js\<close>

text \<open>
  createCache wraps an \<open>LRUCache\<close> of the npm package lru-cache, built with the options
  \<open>max\<close>, \<open>ttl\<close>, \<open>updateAgeOnGet: false\<close> and \<open>updateAgeOnHas: false\<close>.  The package is a
  dependency and not part of the repository; its class is modelled here after the
  package's documented behaviour.  The entries are kept from the least to the most
  recently used, each with its value and the time it was set (0 when the cache has no
  TTL).  \<open>set\<close> puts the entry at the most recent end, evicting the least recently used
  entry when the cache is full; \<open>get\<close> of a live entry moves it to the most recent end
  (the two \<open>updateAge\<close> options only concern the age that the TTL is measured from);
  \<open>get\<close> of an expired entry deletes it; \<open>has\<close> changes nothing.  A \<open>max\<close> of 0 sets
  no bound on the number of entries.  \<open>now\<close> is the time of the call in milliseconds.
\<close>

datatype js_error = JsError (err_name: string) (err_message: string)

record ('k, 'v) lru_cache =
  lruMax :: nat
  lruTtl :: nat
  lruEntries :: "('k \<times> 'v \<times> int) list"

definition isStale :: "nat \<Rightarrow> int \<Rightarrow> 'k \<times> 'v \<times> int \<Rightarrow> bool" where
  "isStale ttl now e = (ttl \<noteq> 0 \<and> snd (snd e) \<noteq> 0 \<and> now - snd (snd e) > int ttl)"

definition LRUCache_new :: "nat \<Rightarrow> nat \<Rightarrow> js_error + ('k, 'v) lru_cache" where
  "LRUCache_new mx ttl =
     (if mx = 0 \<and> ttl = 0
      then Inl (JsError ''TypeError'' ''At least one of max, maxSize, or ttl is required'')
      else Inr \<lparr>lruMax = mx, lruTtl = ttl, lruEntries = []\<rparr>)"

definition LRUCache_get ::
  "int \<Rightarrow> 'k \<Rightarrow> ('k, 'v) lru_cache \<Rightarrow> 'v option \<times> ('k, 'v) lru_cache" where
  "LRUCache_get now k c =
     (case find (\<lambda>e. fst e = k) (lruEntries c) of
        None \<Rightarrow> (None, c)
      | Some e \<Rightarrow>
          if isStale (lruTtl c) now e
          then (None, c\<lparr>lruEntries := filter (\<lambda>x. fst x \<noteq> k) (lruEntries c)\<rparr>)
          else (Some (fst (snd e)),
                c\<lparr>lruEntries := filter (\<lambda>x. fst x \<noteq> k) (lruEntries c) @ [e]\<rparr>))"

definition LRUCache_set :: "int \<Rightarrow> 'k \<Rightarrow> 'v \<Rightarrow> ('k, 'v) lru_cache \<Rightarrow> ('k, 'v) lru_cache" where
  "LRUCache_set now k v c =
     (let e = (k, v, if lruTtl c \<noteq> 0 then now else 0) in
      if k \<in> set (map fst (lruEntries c))
      then c\<lparr>lruEntries := filter (\<lambda>x. fst x \<noteq> k) (lruEntries c) @ [e]\<rparr>
      else if lruEntries c \<noteq> [] \<and> length (lruEntries c) = lruMax c
      then c\<lparr>lruEntries := tl (lruEntries c) @ [e]\<rparr>
      else c\<lparr>lruEntries := lruEntries c @ [e]\<rparr>)"

definition LRUCache_has :: "int \<Rightarrow> 'k \<Rightarrow> ('k, 'v) lru_cache \<Rightarrow> bool" where
  "LRUCache_has now k c =
     (case find (\<lambda>e. fst e = k) (lruEntries c) of
        None \<Rightarrow> False
      | Some e \<Rightarrow> \<not> isStale (lruTtl c) now e)"

definition LRUCache_clear :: "('k, 'v) lru_cache \<Rightarrow> ('k, 'v) lru_cache" where
  "LRUCache_clear c = c\<lparr>lruEntries := []\<rparr>"

definition LRUCache_size :: "('k, 'v) lru_cache \<Rightarrow> nat" where
  "LRUCache_size c = length (lruEntries c)"

text \<open>The object that createCache returns: each method hands over to the LRUCache.\<close>

definition createCache :: "nat option \<Rightarrow> nat option \<Rightarrow> js_error + ('k, 'v) lru_cache" where
  "createCache maxSizeOpt ttlOpt =
     (let maxSize = (case maxSizeOpt of None \<Rightarrow> 100 | Some m \<Rightarrow> m);
          ttl = (case ttlOpt of None \<Rightarrow> 300000 | Some t \<Rightarrow> t)
      in LRUCache_new maxSize ttl)"

definition cache_get ::
  "int \<Rightarrow> 'k \<Rightarrow> ('k, 'v) lru_cache \<Rightarrow> 'v option \<times> ('k, 'v) lru_cache" where
  "cache_get now key c = LRUCache_get now key c"

definition cache_set :: "int \<Rightarrow> 'k \<Rightarrow> 'v \<Rightarrow> ('k, 'v) lru_cache \<Rightarrow> ('k, 'v) lru_cache" where
  "cache_set now key v c = LRUCache_set now key v c"

definition cache_has :: "int \<Rightarrow> 'k \<Rightarrow> ('k, 'v) lru_cache \<Rightarrow> bool" where
  "cache_has now key c = LRUCache_has now key c"

definition cache_clear :: "('k, 'v) lru_cache \<Rightarrow> ('k, 'v) lru_cache" where
  "cache_clear c = LRUCache_clear c"

definition cache_size :: "('k, 'v) lru_cache \<Rightarrow> nat" where
  "cache_size c = LRUCache_size c"

text \<open>
  A run of calls on a cache, each at its own time: insertions, and the two reads.
\<close>

datatype ('k, 'v) cache_op = OpSet 'k 'v | OpGet 'k | OpHas 'k

fun cache_step :: "int \<times> ('k, 'v) cache_op \<Rightarrow> ('k, 'v) lru_cache \<Rightarrow> ('k, 'v) lru_cache" where
  "cache_step (now, OpSet k v) c = cache_set now k v c"
| "cache_step (now, OpGet k) c = snd (cache_get now k c)"
| "cache_step (now, OpHas k) c = c"

definition cache_run :: "(int \<times> ('k, 'v) cache_op) list \<Rightarrow> ('k, 'v) lru_cache \<Rightarrow> ('k, 'v) lru_cache" where
  "cache_run ops c = fold cache_step ops c"

text \<open>The keys that a run inserts, in order, and whether a run reads with \<open>get\<close>.\<close>

fun insertedKey :: "int \<times> ('k, 'v) cache_op \<Rightarrow> 'k list" where
  "insertedKey (now, OpSet k v) = [k]"
| "insertedKey (now, OpGet k) = []"
| "insertedKey (now, OpHas k) = []"

definition insertedKeys :: "(int \<times> ('k, 'v) cache_op) list \<Rightarrow> 'k list" where
  "insertedKeys ops = concat (map insertedKey ops)"

fun isGet :: "int \<times> ('k, 'v) cache_op \<Rightarrow> bool" where
  "isGet (now, OpGet k) = True"
| "isGet (now, OpSet k v) = False"
| "isGet (now, OpHas k) = False"

definition cacheKeys :: "('k, 'v) lru_cache \<Rightarrow> 'k list" where
  "cacheKeys c = map fst (lruEntries c)"

text \<open>
  A cache of capacity 2 and two runs on it: three insertions with a \<open>get\<close>, or a
  \<open>has\<close>, of the first key before the third.
\<close>

definition cache_of_two :: "(string, nat) lru_cache" where
  "cache_of_two = \<lparr>lruMax = 2, lruTtl = 300000, lruEntries = []\<rparr>"

definition run_with_get :: "(int \<times> (string, nat) cache_op) list" where
  "run_with_get = [(1, OpSet ''a'' 1), (2, OpSet ''b'' 2), (3, OpGet ''a''), (4, OpSet ''c'' 3)]"

definition run_with_has :: "(int \<times> (string, nat) cache_op) list" where
  "run_with_has = [(1, OpSet ''a'' 1), (2, OpSet ''b'' 2), (3, OpHas ''a''), (4, OpSet ''c'' 3)]"

section \<open>fetcher.js\<close>

text \<open>\<open>`${n}`\<close> for a natural number: its decimal digits.\<close>

definition digitChar :: "nat \<Rightarrow> char" where
  "digitChar n = ''0123456789'' ! (n mod 10)"

fun showNat :: "nat \<Rightarrow> string" where
  "showNat n = (if n < 10 then [digitChar n] else showNat (n div 10) @ [digitChar n])"

declare showNat.simps [simp del]

subsection \<open>Time, the rate-limit map and the network\<close>

text \<open>
  The module keeps one tracker per host in \<open>rateLimitMap\<close>.  The world a call runs in
  holds the clock (\<open>Date.now()\<close>, in milliseconds), that map, the default cache of the
  search function, and a log of what the call did: the HTTP requests it started and
  the delays it waited, each with the time it began.  \<open>sleep(ms)\<close> moves the clock by
  \<open>ms\<close>; one call runs at a time.
\<close>

record tracker =
  lastRequest :: int
  trackerRateLimitMs :: int

datatype event = HttpGet string | Sleep int

record world =
  clock :: int
  rateLimitMap :: "string \<rightharpoonup> tracker"
  events :: "(int \<times> event) list"
  defaultCache :: "(string, search_result list) lru_cache option"

definition sleep :: "int \<Rightarrow> world \<Rightarrow> world" where
  "sleep ms w = w\<lparr>clock := clock w + max 0 ms, events := events w @ [(clock w, Sleep ms)]\<rparr>"

text \<open>
  The platform's \<open>fetch\<close> is a parameter: the network answers the \<open>n\<close>-th request of the
  run, for a URL, after some milliseconds, with a response or with a rejection (a
  network error).  \<open>response.ok\<close> holds for the statuses 200 to 299; \<open>resp_text\<close> is what
  \<open>response.text()\<close> gives.  A request whose answer takes longer than the timeout is
  aborted when the timeout fires, and rejects with an error of the given name.
\<close>

record response =
  resp_status :: nat
  resp_statusText :: string
  resp_text :: "js_error + string"

definition response_ok :: "response \<Rightarrow> bool" where
  "response_ok r = (200 \<le> resp_status r \<and> resp_status r \<le> 299)"

datatype fetch_outcome = Resolved response | Rejected js_error

record net_reply =
  elapsed :: nat
  outcome :: fetch_outcome

type_synonym network = "nat \<Rightarrow> string \<Rightarrow> net_reply"

fun isHttpGet :: "int \<times> event \<Rightarrow> bool" where
  "isHttpGet (t, HttpGet u) = True"
| "isHttpGet (t, Sleep ms) = False"

definition requestCount :: "world \<Rightarrow> nat" where
  "requestCount w = length (filter isHttpGet (events w))"

definition platformFetch ::
  "network \<Rightarrow> int \<Rightarrow> string \<Rightarrow> string \<Rightarrow> world \<Rightarrow> fetch_outcome \<times> world" where
  "platformFetch net timeout abortName u w =
     (let reply = net (requestCount w) u;
          w1 = w\<lparr>events := events w @ [(clock w, HttpGet u)]\<rparr>
      in if timeout < int (elapsed reply)
         then (Rejected (JsError abortName ''This operation was aborted''),
               w1\<lparr>clock := clock w + max 0 timeout\<rparr>)
         else (outcome reply, w1\<lparr>clock := clock w + int (elapsed reply)\<rparr>))"

subsection \<open>getRateLimitTracker and enforceRateLimit\<close>

definition getRateLimitTracker :: "string \<Rightarrow> int \<Rightarrow> world \<Rightarrow> tracker \<times> world" where
  "getRateLimitTracker host rateLimitMs w =
     (case rateLimitMap w host of
        None \<Rightarrow>
          (let t = \<lparr>lastRequest = 0, trackerRateLimitMs = rateLimitMs\<rparr>
           in (t, w\<lparr>rateLimitMap := (rateLimitMap w)(host \<mapsto> t)\<rparr>))
      | Some t \<Rightarrow> (t, w))"

text \<open>
  \<open>tracker.lastRequest = Date.now()\<close> writes into the tracker object that the map
  holds for the host.
\<close>

definition enforceRateLimit :: "string \<Rightarrow> int \<Rightarrow> world \<Rightarrow> world" where
  "enforceRateLimit host rateLimitMs w =
     (let (tr, w1) = getRateLimitTracker host rateLimitMs w;
          now = clock w1;
          timeSinceLastRequest = now - lastRequest tr;
          w2 = (if timeSinceLastRequest < rateLimitMs
                then sleep (rateLimitMs - timeSinceLastRequest) w1
                else w1)
      in w2\<lparr>rateLimitMap := (rateLimitMap w2)(host \<mapsto> tr\<lparr>lastRequest := clock w2\<rparr>)\<rparr>)"

subsection \<open>fetchRobotsTxt (utils.js)\<close>

text \<open>
  \<open>new URL('/robots.txt', baseUrl)\<close> keeps what the base has before the path and
  replaces path, query and fragment; it throws when the base does not parse.  Any
  failure gives \<open>null\<close>.
\<close>

definition robotsUrlOf :: "url \<Rightarrow> string" where
  "robotsUrlOf base =
     url_toString (base\<lparr>pathname := ''/robots.txt'', query := None, searchParams := [],
                         fragment := None\<rparr>)"

definition fetchRobotsTxt ::
  "url_parser \<Rightarrow> network \<Rightarrow> string \<Rightarrow> string \<Rightarrow> world \<Rightarrow> js_value \<times> world" where
  "fetchRobotsTxt newURL net baseUrl ua w =
     (case newURL baseUrl of
        None \<Rightarrow> (JNull, w)
      | Some base \<Rightarrow>
          (let (out, w1) = platformFetch net 5000 ''TimeoutError'' (robotsUrlOf base) w in
           case out of
             Rejected e \<Rightarrow> (JNull, w1)
           | Resolved r \<Rightarrow>
               if response_ok r
               then (case resp_text r of Inr t \<Rightarrow> (JString t, w1) | Inl e \<Rightarrow> (JNull, w1))
               else (JNull, w1)))"

text \<open>
  The file cannot be fetched: the base URL does not parse, or the network's answer to
  the request takes more than the five seconds allowed, is a rejection, has a status
  outside 200 to 299, or has a body that cannot be read.
\<close>

definition robotsUnfetchable :: "url_parser \<Rightarrow> network \<Rightarrow> string \<Rightarrow> world \<Rightarrow> bool" where
  "robotsUnfetchable newURL net baseUrl w =
     (case newURL baseUrl of
        None \<Rightarrow> True
      | Some base \<Rightarrow>
          (let reply = net (requestCount w) (robotsUrlOf base) in
           5000 < elapsed reply
           \<or> (case outcome reply of
                Rejected e \<Rightarrow> True
              | Resolved r \<Rightarrow> isl (resp_text r) \<or> \<not> response_ok r)))"

subsection \<open>fetchHtml\<close>

record fetch_options =
  opt_userAgent :: "string option"
  opt_timeout :: "int option"
  opt_retries :: "nat option"
  opt_retryDelay :: "int option"
  opt_checkRobots :: "bool option"

definition defaultUserAgent :: string where
  "defaultUserAgent = ''quackfetch/0.1 (+https://github.com/your-repo/quackfetch)''"

definition httpErrorMessage :: "response \<Rightarrow> string" where
  "httpErrorMessage r = ''HTTP '' @ showNat (resp_status r) @ '': '' @ resp_statusText r"

text \<open>
  The body of the \<open>try\<close> block of one attempt: the HTML, or the error that the
  \<open>catch\<close> block receives.
\<close>

definition fetchAttempt ::
  "network \<Rightarrow> int \<Rightarrow> string \<Rightarrow> world \<Rightarrow> (js_error + string) \<times> world" where
  "fetchAttempt net timeout u w =
     (let (out, w1) = platformFetch net timeout ''AbortError'' u w in
      (case out of
         Rejected e \<Rightarrow> Inl e
       | Resolved r \<Rightarrow>
           if \<not> response_ok r then Inl (JsError ''Error'' (httpErrorMessage r))
           else resp_text r,
       w1))"

text \<open>The errors that the \<open>catch\<close> block throws again at once.\<close>

definition notRetried :: "js_error \<Rightarrow> bool" where
  "notRetried e = (err_name e = ''AbortError'' \<or> str_includes (err_message e) ''robots.txt'')"

definition failedMessage :: "string \<Rightarrow> nat \<Rightarrow> js_error \<Rightarrow> string" where
  "failedMessage u retries lastError =
     ''Failed to fetch '' @ u @ '' after '' @ showNat (retries + 1) @ '' attempts: ''
     @ err_message lastError"

text \<open>
  The \<open>for\<close> loop from \<open>attempt\<close> on, and the \<open>throw\<close> after it.  \<open>lastError\<close> is
  \<open>None\<close> while the variable is undefined.
\<close>

function fetchLoop ::
  "network \<Rightarrow> string \<Rightarrow> int \<Rightarrow> nat \<Rightarrow> int \<Rightarrow> nat \<Rightarrow> js_error option \<Rightarrow> world
     \<Rightarrow> (js_error + string) \<times> world"
where
  "fetchLoop net u timeout retries retryDelay attempt lastError w =
     (if attempt \<le> retries then
        (case fetchAttempt net timeout u w of
           (Inr html, w1) \<Rightarrow> (Inr html, w1)
         | (Inl error, w1) \<Rightarrow>
             if notRetried error then (Inl error, w1)
             else fetchLoop net u timeout retries retryDelay (attempt + 1) (Some error)
                    (if attempt < retries then sleep (retryDelay * 2 ^ attempt) w1 else w1))
      else
        (case lastError of
           Some e \<Rightarrow> (Inl (JsError ''Error'' (failedMessage u retries e)), w)
         | None \<Rightarrow>
             (Inl (JsError ''TypeError''
                    (''Cannot read properties of undefined (reading '' @ [CHR 0x27] @ ''message''
                     @ [CHR 0x27] @ '')'')),
              w)))"
  by pat_completeness auto
termination
  by (relation "measure (\<lambda>(net, u, timeout, retries, retryDelay, attempt, lastError, w).
        Suc retries - attempt)") auto

declare fetchLoop.simps [simp del]

text \<open>The options with their defaults, as the destructuring at the head of fetchHtml.\<close>

definition userAgentOf :: "fetch_options \<Rightarrow> string" where
  "userAgentOf options = (case opt_userAgent options of None \<Rightarrow> defaultUserAgent | Some x \<Rightarrow> x)"

definition timeoutOf :: "fetch_options \<Rightarrow> int" where
  "timeoutOf options = (case opt_timeout options of None \<Rightarrow> 10000 | Some x \<Rightarrow> x)"

definition retriesOf :: "fetch_options \<Rightarrow> nat" where
  "retriesOf options = (case opt_retries options of None \<Rightarrow> 2 | Some x \<Rightarrow> x)"

definition retryDelayOf :: "fetch_options \<Rightarrow> int" where
  "retryDelayOf options = (case opt_retryDelay options of None \<Rightarrow> 1000 | Some x \<Rightarrow> x)"

definition checkRobotsOf :: "fetch_options \<Rightarrow> bool" where
  "checkRobotsOf options = (case opt_checkRobots options of None \<Rightarrow> True | Some x \<Rightarrow> x)"

definition baseUrlOf :: "url \<Rightarrow> string" where
  "baseUrlOf urlObj = protocol urlObj @ ''//'' @ url_hostname urlObj"

definition fetchHtml ::
  "url_parser \<Rightarrow> network \<Rightarrow> string \<Rightarrow> fetch_options \<Rightarrow> world \<Rightarrow> (js_error + string) \<times> world"
where
  "fetchHtml newURL net u options w =
     (let ua = userAgentOf options;
          timeout = timeoutOf options;
          retries = retriesOf options;
          retryDelay = retryDelayOf options;
          checkRobots = checkRobotsOf options
      in case newURL u of
           None \<Rightarrow> (Inl (JsError ''TypeError'' ''Invalid URL''), w)
         | Some urlObj \<Rightarrow>
             (let baseUrl = baseUrlOf urlObj;
                  path = pathname urlObj @ url_search urlObj
              in if checkRobots then
                   (let (robotsTxt, w1) = fetchRobotsTxt newURL net baseUrl ua w in
                    if \<not> falsy robotsTxt \<and> \<not> checkRobotsTxt robotsTxt ua path
                    then (Inl (JsError ''Error''
                                (''Access to '' @ path @ '' is disallowed by robots.txt'')), w1)
                    else fetchLoop net u timeout retries retryDelay 0 None w1)
                 else fetchLoop net u timeout retries retryDelay 0 None w))"



subsection \<open>searchDuckDuckGoHtml\<close>

record ddg_options =
  ddg_userAgent :: "string option"
  ddg_rateLimitMs :: "int option"
  ddg_timeout :: "int option"
  ddg_checkRobots :: "bool option"

definition searchUrl :: "string \<Rightarrow> string" where
  "searchUrl q = ''https://html.duckduckgo.com/html/?q='' @ encodeURIComponent q"

definition searchDuckDuckGoHtml ::
  "url_parser \<Rightarrow> network \<Rightarrow> string \<Rightarrow> ddg_options \<Rightarrow> world \<Rightarrow> (js_error + string) \<times> world"
where
  "searchDuckDuckGoHtml newURL net q options w =
     (let ua = (case ddg_userAgent options of None \<Rightarrow> defaultUserAgent | Some x \<Rightarrow> x);
          rateLimitMs = (case ddg_rateLimitMs options of None \<Rightarrow> 1000 | Some x \<Rightarrow> x);
          timeout = (case ddg_timeout options of None \<Rightarrow> 10000 | Some x \<Rightarrow> x);
          checkRobots = (case ddg_checkRobots options of None \<Rightarrow> True | Some x \<Rightarrow> x);
          w1 = enforceRateLimit ''html.duckduckgo.com'' rateLimitMs w
      in fetchHtml newURL net (searchUrl q)
           \<lparr>opt_userAgent = Some ua, opt_timeout = Some timeout, opt_retries = None,
            opt_retryDelay = None, opt_checkRobots = Some checkRobots\<rparr> w1)"

subsection \<open>Failing attempts and the trace of the retry loop\<close>








definition newEvents :: "world \<Rightarrow> world \<Rightarrow> (int \<times> event) list" where
  "newEvents w w' = drop (length (events w)) (events w')"

text \<open>Worlds, networks and parsed URLs for the examples.\<close>

definition world0 :: world where
  "world0 = \<lparr>clock = 1000000, rateLimitMap = Map.empty, events = [], defaultCache = None\<rparr>"

definition net500 :: network where
  "net500 n u =
     \<lparr>elapsed = 0,
      outcome = Resolved \<lparr>resp_status = 500, resp_statusText = ''Internal Server Error'',
                          resp_text = Inr ''Error''\<rparr>\<rparr>"

definition net200 :: network where
  "net200 n u =
     \<lparr>elapsed = 0,
      outcome = Resolved \<lparr>resp_status = 200, resp_statusText = ''OK'', resp_text = Inr ''<html></html>''\<rparr>\<rparr>"

definition ddgUrl :: "string \<Rightarrow> url" where
  "ddgUrl q =
     \<lparr>protocol = ''https:'', username = [], password = [], hostname = Some ''html.duckduckgo.com'',
      port = [], pathname = ''/html/'', query = Some (''q='' @ q), searchParams = [(''q'', q)],
      fragment = None\<rparr>"

definition exampleUrl :: url where
  "exampleUrl =
     \<lparr>protocol = ''https:'', username = [], password = [], hostname = Some ''example.com'',
      port = [], pathname = ''/error'', query = None, searchParams = [], fragment = None\<rparr>"

definition noRobots :: ddg_options where
  "noRobots = \<lparr>ddg_userAgent = None, ddg_rateLimitMs = Some 5000, ddg_timeout = None,
               ddg_checkRobots = Some False\<rparr>"





definition exampleParser :: url_parser where
  "exampleParser =
     [''https://example.com/error'' \<mapsto> exampleUrl,
      ''https://example.com'' \<mapsto> exampleUrl\<lparr>pathname := ''/''\<rparr>]"

text \<open>
  A later world of the same run: the log has grown at its end, by entries that are
  not earlier than the clock was, the clock has not gone back, and the rate-limit map
  and the default cache are as they were.
\<close>

definition extendsWorld :: "world \<Rightarrow> world \<Rightarrow> bool" where
  "extendsWorld w w' =
     (take (length (events w)) (events w') = events w
      \<and> list_all (\<lambda>ev. clock w \<le> fst ev) (newEvents w w')
      \<and> clock w \<le> clock w'
      \<and> rateLimitMap w' = rateLimitMap w
      \<and> defaultCache w' = defaultCache w)"

text \<open>The options of searchDuckDuckGoHtml with their defaults.\<close>

definition rateLimitOf :: "ddg_options \<Rightarrow> int" where
  "rateLimitOf options = (case ddg_rateLimitMs options of None \<Rightarrow> 1000 | Some x \<Rightarrow> x)"

text \<open>
  The time of the last request that the map holds for a host (a new tracker starts
  at 0), the time at which enforceRateLimit lets a call go on, and the delay it logs.
\<close>

definition lastRequestOf :: "world \<Rightarrow> string \<Rightarrow> int" where
  "lastRequestOf w host = (case rateLimitMap w host of None \<Rightarrow> 0 | Some t \<Rightarrow> lastRequest t)"

definition releaseTime :: "world \<Rightarrow> string \<Rightarrow> int \<Rightarrow> int" where
  "releaseTime w host rateLimitMs = max (clock w) (lastRequestOf w host + rateLimitMs)"

definition waitEvents :: "world \<Rightarrow> string \<Rightarrow> int \<Rightarrow> (int \<times> event) list" where
  "waitEvents w host rateLimitMs =
     (if clock w - lastRequestOf w host < rateLimitMs
      then [(clock w, Sleep (rateLimitMs - (clock w - lastRequestOf w host)))]
      else [])"

definition trackerAfter :: "world \<Rightarrow> string \<Rightarrow> int \<Rightarrow> tracker" where
  "trackerAfter w host rateLimitMs =
     (case rateLimitMap w host of
        None \<Rightarrow> \<lparr>lastRequest = 0, trackerRateLimitMs = rateLimitMs\<rparr>
      | Some t \<Rightarrow> t)
     \<lparr>lastRequest := releaseTime w host rateLimitMs\<rparr>"


section \<open>index.js\<close>

text \<open>
  The options of \<open>search\<close>; a field is \<open>None\<close> where the object has no such
  property.  The numbers are natural numbers, but for the rate limit.
\<close>

record search_options =
  so_max :: "nat option"
  so_cacheTTL :: "nat option"
  so_cacheSize :: "nat option"
  so_userAgent :: "string option"
  so_rateLimit :: "int option"
  so_useInstantApi :: "bool option"
  so_useCache :: "bool option"

subsection \<open>generateCacheKey\<close>

text \<open>
  \<open>JSON.stringify\<close> of the object \<open>{ max, useInstantApi }\<close>; the number is written in
  decimal digits (as JavaScript writes a natural number below ten to the power 21).
\<close>

definition dquote :: string where
  "dquote = [CHR 0x22]"

definition stringifyRelevant :: "nat \<Rightarrow> bool \<Rightarrow> string" where
  "stringifyRelevant m b =
     ''{'' @ dquote @ ''max'' @ dquote @ '':'' @ showNat m @ '','' @ dquote @ ''useInstantApi''
     @ dquote @ '':'' @ (if b then ''true'' else ''false'') @ ''}''"

text \<open>
  \<open>options.max || 10\<close> and \<open>options.useInstantApi || false\<close>: a \<open>max\<close> of 0 is
  falsy and gives 10 as well.
\<close>

definition generateCacheKey :: "string \<Rightarrow> search_options \<Rightarrow> string" where
  "generateCacheKey q options =
     (let relevantMax = (case so_max options of None \<Rightarrow> 10 | Some m \<Rightarrow> if m = 0 then 10 else m);
          relevantUseInstantApi = (case so_useInstantApi options of None \<Rightarrow> False | Some b \<Rightarrow> b)
      in ''search:'' @ q @ '':'' @ stringifyRelevant relevantMax relevantUseInstantApi)"

subsection \<open>search\<close>

text \<open>The options with their defaults, as the destructuring at the head of \<open>search\<close>.\<close>

definition maxOf :: "search_options \<Rightarrow> nat" where
  "maxOf options = (case so_max options of None \<Rightarrow> 10 | Some x \<Rightarrow> x)"

definition cacheTTLOf :: "search_options \<Rightarrow> nat" where
  "cacheTTLOf options = (case so_cacheTTL options of None \<Rightarrow> 300000 | Some x \<Rightarrow> x)"

definition cacheSizeOf :: "search_options \<Rightarrow> nat" where
  "cacheSizeOf options = (case so_cacheSize options of None \<Rightarrow> 100 | Some x \<Rightarrow> x)"

definition searchUserAgentOf :: "search_options \<Rightarrow> string" where
  "searchUserAgentOf options =
     (case so_userAgent options of None \<Rightarrow> defaultUserAgent | Some x \<Rightarrow> x)"

definition searchRateLimitOf :: "search_options \<Rightarrow> int" where
  "searchRateLimitOf options = (case so_rateLimit options of None \<Rightarrow> 1000 | Some x \<Rightarrow> x)"

definition useInstantApiOf :: "search_options \<Rightarrow> bool" where
  "useInstantApiOf options = (case so_useInstantApi options of None \<Rightarrow> False | Some x \<Rightarrow> x)"

definition useCacheOf :: "search_options \<Rightarrow> bool" where
  "useCacheOf options = (case so_useCache options of None \<Rightarrow> True | Some x \<Rightarrow> x)"

text \<open>
  The test \<open>!query || typeof query !== 'string' || query.trim().length === 0\<close> that
  makes \<open>search\<close> throw.
\<close>

definition invalidQuery :: "js_value \<Rightarrow> bool" where
  "invalidQuery q =
     (falsy q \<or> \<not> typeof_string q
      \<or> (case q of JString s \<Rightarrow> length (trim s) = 0 | _ \<Rightarrow> False))"

text \<open>
  \<open>if (useCache && !defaultCache) defaultCache = createCache(...)\<close>: the module's
  variable \<open>defaultCache\<close> is the field of the world, \<open>None\<close> while it is null.  The
  statement is outside the \<open>try\<close> block: an error of the constructor leaves \<open>search\<close>
  as it is.
\<close>

definition initCache :: "search_options \<Rightarrow> world \<Rightarrow> js_error + world" where
  "initCache options w =
     (if useCacheOf options \<and> defaultCache w = None
      then (case createCache (Some (cacheSizeOf options)) (Some (cacheTTLOf options)) of
              Inl e \<Rightarrow> Inl e
            | Inr c \<Rightarrow> Inr (w\<lparr>defaultCache := Some c\<rparr>))
      else Inr w)"

text \<open>
  \<open>defaultCache.has(cacheKey)\<close>, \<open>defaultCache.get(cacheKey)\<close> and
  \<open>defaultCache.set(cacheKey, results)\<close> at the time of the world's clock.  The sources
  call them with caching enabled only, when the cache has been created; on a null
  \<open>defaultCache\<close> there is nothing to read and nothing to write.
\<close>

definition defaultCache_has :: "string \<Rightarrow> world \<Rightarrow> bool" where
  "defaultCache_has key w =
     (case defaultCache w of None \<Rightarrow> False | Some c \<Rightarrow> cache_has (clock w) key c)"

definition defaultCache_get :: "string \<Rightarrow> world \<Rightarrow> search_result list option \<times> world" where
  "defaultCache_get key w =
     (case defaultCache w of
        None \<Rightarrow> (None, w)
      | Some c \<Rightarrow>
          (let (v, c') = cache_get (clock w) key c in (v, w\<lparr>defaultCache := Some c'\<rparr>)))"

definition defaultCache_set :: "string \<Rightarrow> search_result list \<Rightarrow> world \<Rightarrow> world" where
  "defaultCache_set key v w =
     w\<lparr>defaultCache := map_option (cache_set (clock w) key v) (defaultCache w)\<rparr>"

text \<open>
  The branch of the cache hit: a copy of each cached result with \<open>cached: true\<close>.
  \<open>get\<close> gives \<open>undefined\<close> for a key that \<open>has\<close> does not hold, and \<open>.map\<close> of
  \<open>undefined\<close> throws.
\<close>

definition cacheHit ::
  "string \<Rightarrow> world \<Rightarrow> (js_error + search_result list) \<times> world" where
  "cacheHit cacheKey w =
     (let (cachedResults, w1) = defaultCache_get cacheKey w in
      case cachedResults of
        None \<Rightarrow>
          (Inl (JsError ''TypeError''
                 (''Cannot read properties of undefined (reading '' @ [CHR 0x27] @ ''map''
                  @ [CHR 0x27] @ '')'')), w1)
      | Some rs \<Rightarrow> (Inr (map (\<lambda>result. result\<lparr>cached := Some True\<rparr>) rs), w1))"

text \<open>
  The \<open>try\<close> block and its \<open>catch\<close>: the fetcher, the parser, the write to the cache;
  an error is thrown again with the query, in double quotes, before its message.
\<close>

definition fetchAndParse ::
  "url_parser \<Rightarrow> html_loader \<Rightarrow> network \<Rightarrow> string \<Rightarrow> string \<Rightarrow> search_options \<Rightarrow> world
     \<Rightarrow> (js_error + search_result list) \<times> world" where
  "fetchAndParse newURL load net now q options w =
     (let (res, w1) =
            searchDuckDuckGoHtml newURL net q
              \<lparr>ddg_userAgent = Some (searchUserAgentOf options),
               ddg_rateLimitMs = Some (searchRateLimitOf options),
               ddg_timeout = None, ddg_checkRobots = Some True\<rparr> w
      in case res of
           Inl error \<Rightarrow>
             (Inl (JsError ''Error''
                    (''Search failed for query '' @ dquote @ q @ dquote @ '': ''
                     @ err_message error)), w1)
         | Inr html \<Rightarrow>
             (let results = parseSearchHtml newURL load now (JString html) (Some (maxOf options)) in
              if useCacheOf options \<and> length results > 0
              then (Inr results, defaultCache_set (generateCacheKey q options) results w1)
              else (Inr results, w1)))"

definition search ::
  "url_parser \<Rightarrow> html_loader \<Rightarrow> network \<Rightarrow> string \<Rightarrow> js_value \<Rightarrow> search_options \<Rightarrow> world
     \<Rightarrow> (js_error + search_result list) \<times> world" where
  "search newURL load net now qv options w =
     (if invalidQuery qv
      then (Inl (JsError ''Error'' ''Query must be a non-empty string''), w)
      else (case qv of
              JString q \<Rightarrow>
                (case initCache options w of
                   Inl e \<Rightarrow> (Inl e, w)
                 | Inr w1 \<Rightarrow>
                     (let cacheKey = generateCacheKey q options in
                      if useCacheOf options \<and> defaultCache_has cacheKey w1
                      then cacheHit cacheKey w1
                      else fetchAndParse newURL load net now q options w1))
            | _ \<Rightarrow> (Inl (JsError ''Error'' ''Query must be a non-empty string''), w)))"

text \<open>The world some milliseconds later.\<close>

definition later :: "int \<Rightarrow> world \<Rightarrow> world" where
  "later d w = w\<lparr>clock := clock w + d\<rparr>"

text \<open>The options and the parameters of the cache test, and its two calls.\<close>

definition testOptions :: search_options where
  "testOptions =
     \<lparr>so_max = Some 10, so_cacheTTL = Some 60, so_cacheSize = None, so_userAgent = None,
      so_rateLimit = None, so_useInstantApi = None, so_useCache = Some True\<rparr>"

definition testParser :: url_parser where
  "testParser =
     [''https://html.duckduckgo.com/html/?q=cached%20query'' \<mapsto> ddgUrl ''cached%20query'',
      ''https://html.duckduckgo.com'' \<mapsto> (ddgUrl [])\<lparr>pathname := ''/'', query := None,
                                            searchParams := []\<rparr>,
      ''https://example.com'' \<mapsto> exampleUrl\<lparr>pathname := ''/''\<rparr>]"

definition firstSearch :: "(js_error + search_result list) \<times> world" where
  "firstSearch =
     search testParser (\<lambda>s. three_blocks) net200 ''2024-01-01T00:00:00.000Z''
       (JString ''cached query'') testOptions world0"

text \<open>The TTL of the default cache of a world (0 when there is none).\<close>

definition cacheTtlOf :: "world \<Rightarrow> nat" where
  "cacheTtlOf w = (case defaultCache w of None \<Rightarrow> 0 | Some c \<Rightarrow> lruTtl c)"

text \<open>The results of the first call of the cache test.\<close>

definition testResult :: "nat \<Rightarrow> search_result" where
  "testResult n =
     \<lparr>title = ''Title'', resultUrl = ''https://example.com/'', snippet = ''Snippet'', rank = n,
      source = ''example.com'', retrievedAt = ''2024-01-01T00:00:00.000Z'', cached = None\<rparr>"

definition testResults :: "search_result list" where
  "testResults = [testResult 1, testResult 2, testResult 3]"

definition secondSearch :: "int \<Rightarrow> search_options \<Rightarrow> (js_error + search_result list) \<times> world" where
  "secondSearch d options =
     search testParser (\<lambda>s. three_blocks) net200 ''2024-01-01T00:00:00.000Z''
       (JString ''cached query'') options (later d (snd firstSearch))"
section \<open>Evaluation rules\<close>

lemma endsWith_eval: "endsWith s p = prefix (rev p) (rev s)"
  by (simp add: endsWith_def suffix_to_prefix)

section \<open>Properties of normalizeUrl\<close>

lemma delete_fields:
  "protocol (searchParams_delete n u) = protocol u"
  "username (searchParams_delete n u) = username u"
  "password (searchParams_delete n u) = password u"
  "hostname (searchParams_delete n u) = hostname u"
  "port (searchParams_delete n u) = port u"
  "pathname (searchParams_delete n u) = pathname u"
  "fragment (searchParams_delete n u) = fragment u"
  "searchParams (searchParams_delete n u) = filter (\<lambda>p. fst p \<noteq> n) (searchParams u)"
  by (simp_all add: searchParams_delete_def Let_def case_prod_unfold)

lemma fold_delete_fields:
  "protocol (fold searchParams_delete ns u) = protocol u"
  "username (fold searchParams_delete ns u) = username u"
  "password (fold searchParams_delete ns u) = password u"
  "hostname (fold searchParams_delete ns u) = hostname u"
  "port (fold searchParams_delete ns u) = port u"
  "pathname (fold searchParams_delete ns u) = pathname u"
  "fragment (fold searchParams_delete ns u) = fragment u"
  "searchParams (fold searchParams_delete ns u) = filter (\<lambda>p. fst p \<notin> set ns) (searchParams u)"
  by (induction ns arbitrary: u; simp add: delete_fields conj_commute)+

text \<open>After the last \<open>delete\<close> the query is the serialization of what is left.\<close>

lemma fold_delete_query:
  "ns \<noteq> [] \<Longrightarrow> query (fold searchParams_delete ns u) =
     (let q = serializeParams (searchParams (fold searchParams_delete ns u))
      in if q = [] then None else Some q)"
proof (induction ns arbitrary: u rule: rev_induct)
  case Nil
  then show ?case by simp
next
  case (snoc n ns)
  show ?case by (simp add: searchParams_delete_def Let_def)
qed

lemma removeTracking_query_None:
  assumes "set (map fst (searchParams u)) \<subseteq> set trackingParams"
  shows "query (removeTracking u) = None"
proof -
  have "filter (\<lambda>p. fst p \<notin> set trackingParams) (searchParams u) = []"
    using assms by (auto simp: filter_empty_conv)
  then have "searchParams (removeTracking u) = []"
    by (simp add: removeTracking_def fold_delete_fields)
  moreover have "trackingParams \<noteq> []" by (simp add: trackingParams_def)
  ultimately show ?thesis
    unfolding removeTracking_def
    by (simp add: fold_delete_query serializeParams_def)
qed

lemma url_before_path_pathname: "url_before_path (u\<lparr>pathname := p\<rparr>) = url_before_path u"
  by (simp add: url_before_path_def userinfo_def split: option.split)

text \<open>
  Claim C9, as amended.  When the URL parses, its path ends in a slash without being
  \<open>/\<close>, no query is left once the tracking parameters are removed and there is no
  fragment, normalizeUrl returns the serialization of the URL with the last slash of
  the path removed.  The slash is taken from the end of the serialized URL, so the
  statement needs the path to be the end of it.
\<close>

theorem normalizeUrl_strips_trailing_slash:
  assumes "s \<noteq> []" and "newURL s = Some u"
    and "endsWith (pathname u) ''/''" and "pathname u \<noteq> ''/''"
    and "set (map fst (searchParams u)) \<subseteq> set trackingParams" and "fragment u = None"
  shows "normalizeUrl newURL (JString s) =
           url_toString ((removeTracking u)\<lparr>pathname := slice_0_minus1 (pathname u)\<rparr>)"
proof -
  let ?u = "removeTracking u"
  have q: "query ?u = None" using assms(5) by (rule removeTracking_query_None)
  have f: "fragment ?u = None" and p: "pathname ?u = pathname u"
    using assms(6) by (simp_all add: removeTracking_def fold_delete_fields)
  obtain pre where pre: "pathname u = pre @ ''/''"
    using assms(3) by (auto simp: endsWith_def suffix_def)
  have ts: "url_toString ?u = (url_before_path ?u @ pre) @ ''/''"
    by (simp add: url_toString_def q f p pre)
  have e: "endsWith (url_toString ?u) ''/''"
    unfolding ts endsWith_def by (rule suffix_appendI) simp
  have "normalizeParsed u = slice_0_minus1 (url_toString ?u)"
    using e assms(4) by (simp add: normalizeParsed_def Let_def p)
  also have "\<dots> = url_before_path ?u @ pre"
    unfolding ts by (simp add: slice_0_minus1_def butlast_append)
  also have "\<dots> = url_toString (?u\<lparr>pathname := slice_0_minus1 (pathname u)\<rparr>)"
    by (simp add: url_toString_def url_before_path_pathname q f pre slice_0_minus1_def butlast_append)
  finally show ?thesis using assms(1,2) by (simp add: normalizeUrl_def)
qed

text \<open>
  The amended claim at \<open>https://example.com/path/?ref=x\<close>: the tracking parameter goes,
  no query is left, and the slash is stripped.
\<close>

theorem normalizeUrl_strips_trailing_slash_witness:
  "normalizeUrl [''https://example.com/path/?ref=x'' \<mapsto> url_with_tracking]
       (JString ''https://example.com/path/?ref=x'')
     = ''https://example.com/path''"
proof -
  have "normalizeUrl [''https://example.com/path/?ref=x'' \<mapsto> url_with_tracking]
          (JString ''https://example.com/path/?ref=x'')
     = url_toString ((removeTracking url_with_tracking)
          \<lparr>pathname := slice_0_minus1 (pathname url_with_tracking)\<rparr>)"
    by (rule normalizeUrl_strips_trailing_slash)
       (simp_all add: url_with_tracking_def endsWith_eval trackingParams_def)
  also have "\<dots> = ''https://example.com/path''"
    by (simp add: removeTracking_def trackingParams_def url_with_tracking_def
        searchParams_delete_def Let_def serializeParams_def url_toString_def
        url_before_path_def userinfo_def slice_0_minus1_def)
  finally show ?thesis .
qed

text \<open>
  Claim C9 as stated fails when a query follows the path: the URL
  \<open>https://example.com/path/?a=1\<close> parses, its path \<open>/path/\<close> ends in a slash and is
  not \<open>/\<close>, and normalizeUrl returns the URL with the path as it was.
\<close>

theorem normalizeUrl_keeps_slash_before_query:
  "normalizeUrl [''https://example.com/path/?a=1'' \<mapsto> url_with_query]
       (JString ''https://example.com/path/?a=1'')
     = ''https://example.com/path/?a=1''
   \<and> endsWith (pathname url_with_query) ''/'' \<and> pathname url_with_query \<noteq> ''/''"
  by (simp add: normalizeUrl_def normalizeParsed_def removeTracking_def trackingParams_def
      url_with_query_def searchParams_delete_def Let_def serializeParams_def formEncode_def
      formEncodeChar_def isAlnum_def url_toString_def url_before_path_def userinfo_def
      endsWith_eval)

text \<open>
  Claim C10.  normalizeUrl returns the empty string, and raises nothing, whenever its
  argument is falsy (null, undefined, the empty string) or not a string; a non-empty
  string that the URL parser rejects comes back unchanged, and any other non-empty
  string takes the path through the parsed URL.
\<close>

theorem normalizeUrl_non_string_or_empty:
  "(falsy v \<or> \<not> typeof_string v \<longrightarrow> normalizeUrl newURL v = [])
   \<and> (s \<noteq> [] \<and> newURL s = None \<longrightarrow> normalizeUrl newURL (JString s) = s)
   \<and> (s \<noteq> [] \<and> newURL s = Some u \<longrightarrow> normalizeUrl newURL (JString s) = normalizeParsed u)"
  by (simp add: normalizeUrl_def)

theorem normalizeUrl_non_string_or_empty_witness:
  "normalizeUrl (\<lambda>s. None) JNull = []
   \<and> normalizeUrl (\<lambda>s. None) JUndefined = []
   \<and> normalizeUrl (\<lambda>s. None) (JString []) = []
   \<and> normalizeUrl (\<lambda>s. None) (JNumber 7) = []
   \<and> normalizeUrl (\<lambda>s. None) (JString ''not a url'') = ''not a url''"
  using normalizeUrl_non_string_or_empty [of JNull "\<lambda>s. None" "''not a url''"]
        normalizeUrl_non_string_or_empty [of JUndefined "\<lambda>s. None" "''not a url''"]
        normalizeUrl_non_string_or_empty [of "JString []" "\<lambda>s. None" "''not a url''"]
        normalizeUrl_non_string_or_empty [of "JNumber 7" "\<lambda>s. None" "''not a url''"]
  by simp

section \<open>Properties of checkRobotsTxt\<close>

lemma pathMatchesRule_iff:
  assumes "path \<noteq> []" and "rule \<noteq> []"
  shows "pathMatchesRule path rule = ruleMatches path rule"
proof -
  have "prefix rule path \<Longrightarrow> prefix (butlast rule) path"
    by (metis prefix_order.order_trans prefixeq_butlast)
  then show ?thesis
    using assms
    by (auto simp: pathMatchesRule_def ruleMatches_def startsWith_def endsWith_def slice_0_minus1_def)
qed

lemma checkRules_iff:
  "checkRules path allows rules =
     (\<not> ((\<exists>rule \<in> set rules. pathMatchesRule path rule) \<and> \<not> (\<exists>rule \<in> set allows. pathMatchesRule path rule)))"
  by (induction rules) (auto simp: list_ex_iff Let_def)

lemma robotsLine_applicable:
  "isUserAgentLine l \<Longrightarrow> agentApplies ua (declaredAgent l) \<Longrightarrow>
     robotsLine ua l st = \<lparr>currentUserAgent = Some (declaredAgent l), disallowRules = [], allowRules = []\<rparr>"
  by (simp add: robotsLine_def isUserAgentLine_def agentApplies_def declaredAgent_def Let_def)

lemma robotsLine_other_agent:
  "isUserAgentLine l \<Longrightarrow> \<not> agentApplies ua (declaredAgent l) \<Longrightarrow>
     robotsLine ua l st = st\<lparr>currentUserAgent := None\<rparr>"
  by (simp add: robotsLine_def isUserAgentLine_def agentApplies_def declaredAgent_def Let_def)

lemma robotsLine_directive:
  "\<not> isUserAgentLine l \<Longrightarrow> currentUserAgent st \<noteq> None \<Longrightarrow>
     rulesOf (robotsLine ua l st) = recordDirective l (rulesOf st)
     \<and> currentUserAgent (robotsLine ua l st) = currentUserAgent st"
  by (simp add: robotsLine_def isUserAgentLine_def recordDirective_def rulesOf_def Let_def)

lemma robotsLine_ignored:
  "\<not> isUserAgentLine l \<Longrightarrow> currentUserAgent st = None \<Longrightarrow> robotsLine ua l st = st"
  by (simp add: robotsLine_def isUserAgentLine_def Let_def)

lemma robotsScan_general:
  "rulesOf (fold (robotsLine ua) lines st) =
     (case filter (\<lambda>r. agentApplies ua (fst r)) (robotsRecords lines) of
        [] \<Rightarrow> (if currentUserAgent st \<noteq> None
               then fold recordDirective (takeWhile (\<lambda>x. \<not> isUserAgentLine x) lines) (rulesOf st)
               else rulesOf st)
      | r # rs \<Rightarrow> recordRules (snd (last (r # rs))))"
proof (induction lines arbitrary: st)
  case Nil
  then show ?case by simp
next
  case (Cons l ls)
  let ?R = "filter (\<lambda>r. agentApplies ua (fst r)) (robotsRecords ls)"
  show ?case
  proof (cases "isUserAgentLine l")
    case ua: True
    show ?thesis
    proof (cases "agentApplies ua (declaredAgent l)")
      case True
      have st1: "robotsLine ua l st = \<lparr>currentUserAgent = Some (declaredAgent l), disallowRules = [], allowRules = []\<rparr>"
        using ua True by (rule robotsLine_applicable)
      have r1: "rulesOf \<lparr>currentUserAgent = Some (declaredAgent l), disallowRules = [], allowRules = []\<rparr> = ([], [])"
        by (simp add: rulesOf_def)
      show ?thesis
        using ua True
        by (simp add: Cons.IH st1 r1 recordRules_def split: list.split)
    next
      case False
      have st1: "robotsLine ua l st = st\<lparr>currentUserAgent := None\<rparr>"
        using ua False by (rule robotsLine_other_agent)
      have r1: "rulesOf (st\<lparr>currentUserAgent := None\<rparr>) = rulesOf st"
        by (simp add: rulesOf_def)
      show ?thesis
        using ua False
        by (simp add: Cons.IH st1 r1 split: list.split)
    qed
  next
    case nua: False
    show ?thesis
    proof (cases "currentUserAgent st = None")
      case True
      then show ?thesis
        using nua by (simp add: Cons.IH robotsLine_ignored split: list.split)
    next
      case False
      then show ?thesis
        using nua robotsLine_directive [OF nua False, of ua]
        by (simp add: Cons.IH split: list.split)
    qed
  qed
qed

lemma robotsScan_rules:
  "(disallowRules (robotsScan ua lines), allowRules (robotsScan ua lines)) = lastApplicableRules ua lines"
  using robotsScan_general [of ua lines robotsInit]
  by (simp add: robotsScan_def lastApplicableRules_def rulesOf_def robotsInit_def split: list.split)

text \<open>The loop never keeps an empty rule.\<close>

lemma recordDirective_nonempty:
  "[] \<notin> set (fst rules) \<Longrightarrow> [] \<notin> set (snd rules) \<Longrightarrow>
     [] \<notin> set (fst (recordDirective l rules)) \<and> [] \<notin> set (snd (recordDirective l rules))"
  by (simp add: recordDirective_def Let_def)

lemma fold_recordDirective_nonempty:
  "[] \<notin> set (fst rules) \<Longrightarrow> [] \<notin> set (snd rules) \<Longrightarrow>
     [] \<notin> set (fst (fold recordDirective body rules))
     \<and> [] \<notin> set (snd (fold recordDirective body rules))"
proof (induction body arbitrary: rules)
  case Nil
  then show ?case by simp
next
  case (Cons l ls)
  show ?case
    using recordDirective_nonempty [OF Cons.prems, of l] by (simp add: Cons.IH)
qed

lemma lastApplicableRules_nonempty:
  "[] \<notin> set (fst (lastApplicableRules ua lines)) \<and> [] \<notin> set (snd (lastApplicableRules ua lines))"
  using fold_recordDirective_nonempty [of "([], [])"]
  by (simp add: lastApplicableRules_def recordRules_def split: list.split)

lemma pathMatchesRule_empty_path: "\<not> pathMatchesRule [] rule"
  by (simp add: pathMatchesRule_def)

lemma fetchRobotsTxt_unfetchable:
  "robotsUnfetchable newURL net baseUrl w \<Longrightarrow>
     fst (fetchRobotsTxt newURL net baseUrl ua w) = JNull"
  by (auto simp: robotsUnfetchable_def fetchRobotsTxt_def platformFetch_def Let_def
      split: option.splits fetch_outcome.splits sum.splits if_splits)

text \<open>
  Claim C5, as amended.  checkRobotsTxt answers allowed for undefined, null or empty
  robots.txt content, and when the file cannot be fetched: fetchRobotsTxt then hands
  over null.  It also answers allowed, whatever the content, for the empty path.  For
  non-empty content and a non-empty path it answers false exactly when, among the rules
  of the last applicable record, some disallow rule matches the path (equality, prefix,
  or prefix of the rule without its final \<open>*\<close>) and no allow rule matches it by the
  same relation.
\<close>

theorem checkRobotsTxt_disallowed_iff:
  "checkRobotsTxt JUndefined userAgent path
   \<and> checkRobotsTxt JNull userAgent path
   \<and> checkRobotsTxt (JString []) userAgent path
   \<and> (robotsUnfetchable newURL net baseUrl w \<longrightarrow>
        fst (fetchRobotsTxt newURL net baseUrl userAgent w) = JNull
        \<and> checkRobotsTxt (fst (fetchRobotsTxt newURL net baseUrl userAgent w)) userAgent path)
   \<and> checkRobotsTxt robotsTxt userAgent []
   \<and> (s \<noteq> [] \<and> path \<noteq> [] \<longrightarrow>
        (checkRobotsTxt (JString s) userAgent path = False) =
        ((\<exists>rule \<in> set (fst (lastApplicableRules userAgent (robotsLines s))). ruleMatches path rule)
         \<and> \<not> (\<exists>rule \<in> set (snd (lastApplicableRules userAgent (robotsLines s))). ruleMatches path rule)))"
proof -
  let ?R = "lastApplicableRules userAgent (robotsLines s)"
  have d: "fst ?R = disallowRules (robotsScan userAgent (robotsLines s))"
    and a: "snd ?R = allowRules (robotsScan userAgent (robotsLines s))"
    by (simp_all add: robotsScan_rules [symmetric])
  have ne: "[] \<notin> set (fst ?R)" "[] \<notin> set (snd ?R)"
    using lastApplicableRules_nonempty [of userAgent "robotsLines s"] by simp_all
  have m: "path \<noteq> [] \<Longrightarrow> rule \<in> set (fst ?R) \<union> set (snd ?R) \<Longrightarrow>
             pathMatchesRule path rule = ruleMatches path rule" for rule
    using ne by (intro pathMatchesRule_iff) auto
  have c1: "checkRobotsTxt JUndefined userAgent path" "checkRobotsTxt JNull userAgent path"
    "checkRobotsTxt (JString []) userAgent path"
    by (simp_all add: checkRobotsTxt_def)
  have c4: "robotsUnfetchable newURL net baseUrl w \<longrightarrow>
        fst (fetchRobotsTxt newURL net baseUrl userAgent w) = JNull
        \<and> checkRobotsTxt (fst (fetchRobotsTxt newURL net baseUrl userAgent w)) userAgent path"
    by (simp add: fetchRobotsTxt_unfetchable checkRobotsTxt_def)
  have c5: "checkRobotsTxt robotsTxt userAgent []"
    by (cases robotsTxt)
       (simp_all add: checkRobotsTxt_def Let_def checkRules_iff pathMatchesRule_empty_path)
  have c6: "s \<noteq> [] \<and> path \<noteq> [] \<longrightarrow>
        (checkRobotsTxt (JString s) userAgent path = False) =
        ((\<exists>rule \<in> set (fst ?R). ruleMatches path rule)
         \<and> \<not> (\<exists>rule \<in> set (snd ?R). ruleMatches path rule))"
  proof (intro impI, elim conjE)
    assume s: "s \<noteq> []" and p: "path \<noteq> []"
    have "(checkRobotsTxt (JString s) userAgent path = False) =
            ((\<exists>rule \<in> set (fst ?R). pathMatchesRule path rule)
             \<and> \<not> (\<exists>rule \<in> set (snd ?R). pathMatchesRule path rule))"
      using s d a by (simp add: checkRobotsTxt_def Let_def checkRules_iff robotsLines_def)
    also have "\<dots> = ((\<exists>rule \<in> set (fst ?R). ruleMatches path rule)
             \<and> \<not> (\<exists>rule \<in> set (snd ?R). ruleMatches path rule))"
      using m [OF p] by auto
    finally show "(checkRobotsTxt (JString s) userAgent path = False) =
        ((\<exists>rule \<in> set (fst ?R). ruleMatches path rule)
         \<and> \<not> (\<exists>rule \<in> set (snd ?R). ruleMatches path rule))" .
  qed
  show ?thesis using c1 c4 c5 c6 by blast
qed

text \<open>
  The claim on a file of two records, for a path that the last applicable record
  disallows and for one that its allow rule gives back, and on a robots.txt request
  that is answered with the status 500.
\<close>

theorem checkRobotsTxt_disallowed_iff_witness:
  "checkRobotsTxt
     (JString ''User-agent: other\<newline>Disallow: /\<newline>User-agent: *\<newline>Disallow: /html\<newline>Allow: /html/ok'')
     ''quackfetch/0.1'' ''/html/?q=a'' = False
   \<and> checkRobotsTxt
     (JString ''User-agent: other\<newline>Disallow: /\<newline>User-agent: *\<newline>Disallow: /html\<newline>Allow: /html/ok'')
     ''quackfetch/0.1'' ''/html/ok/page'' = True
   \<and> fst (fetchRobotsTxt exampleParser net500 ''https://example.com'' ''quackfetch/0.1'' world0) = JNull
   \<and> checkRobotsTxt
       (fst (fetchRobotsTxt exampleParser net500 ''https://example.com'' ''quackfetch/0.1'' world0))
       ''quackfetch/0.1'' ''/html/?q=a''"
proof -
  let ?s = "''User-agent: other\<newline>Disallow: /\<newline>User-agent: *\<newline>Disallow: /html\<newline>Allow: /html/ok''"
  have r: "lastApplicableRules ''quackfetch/0.1'' (robotsLines ?s) = ([''/html''], [''/html/ok''])"
    by code_simp
  have m: "ruleMatches ''/html/?q=a'' ''/html''" "\<not> ruleMatches ''/html/?q=a'' ''/html/ok''"
    "ruleMatches ''/html/ok/page'' ''/html/ok''"
    by (simp_all add: ruleMatches_def)
  have u: "robotsUnfetchable exampleParser net500 ''https://example.com'' world0"
    by (simp add: robotsUnfetchable_def exampleParser_def net500_def response_ok_def Let_def)
  note a = checkRobotsTxt_disallowed_iff
             [of "''quackfetch/0.1''" "''/html/?q=a''" exampleParser net500 "''https://example.com''"
                 world0 JNull ?s]
  note b = checkRobotsTxt_disallowed_iff
             [of "''quackfetch/0.1''" "''/html/ok/page''" exampleParser net500 "''https://example.com''"
                 world0 JNull ?s]
  have a1: "checkRobotsTxt (JString ?s) ''quackfetch/0.1'' ''/html/?q=a'' = False"
    using a by (simp add: r m)
  have b1: "checkRobotsTxt (JString ?s) ''quackfetch/0.1'' ''/html/ok/page'' = True"
    using b by (simp add: r m)
  have a2: "fst (fetchRobotsTxt exampleParser net500 ''https://example.com'' ''quackfetch/0.1'' world0) = JNull
     \<and> checkRobotsTxt
       (fst (fetchRobotsTxt exampleParser net500 ''https://example.com'' ''quackfetch/0.1'' world0))
       ''quackfetch/0.1'' ''/html/?q=a''"
    using a u by blast
  show ?thesis using a1 b1 a2 by blast
qed

text \<open>
  Claim C5 as stated fails for the empty path: the rule \<open>*\<close> of the last applicable
  record matches it by the claim's relation (the rule without its \<open>*\<close> is a prefix of
  every path) and there is no allow rule, yet checkRobotsTxt answers allowed,
  pathMatchesRule giving false for an empty path before it compares anything.
\<close>

theorem checkRobotsTxt_allows_empty_path:
  "lastApplicableRules ''quackfetch/0.1'' (robotsLines ''User-agent: *\<newline>Disallow: *'') = ([''*''], [])
   \<and> ruleMatches [] ''*''
   \<and> checkRobotsTxt (JString ''User-agent: *\<newline>Disallow: *'') ''quackfetch/0.1'' [] = True"
  by code_simp

section \<open>Properties of parseSearchHtml\<close>

lemma orElse_Untitled: "orElse t ''Untitled'' \<noteq> []"
  by (simp add: orElse_def)

lemma primaryEach_length:
  "length (primaryEach newURL now M bs acc) =
     (if length acc \<ge> M then length acc else min M (length acc + length (filter wellFormedBlock bs)))"
proof (induction bs arbitrary: acc)
  case Nil
  then show ?case by simp
next
  case (Cons b bs)
  show ?case
  proof (cases "wellFormedBlock b")
    case True
    then have "trim (linkText b) \<noteq> [] \<or> unwrapRedirect (hrefOrEmpty (linkHref b)) \<noteq> []"
      by (simp add: wellFormedBlock_def)
    then show ?thesis using True by (auto simp: Cons.IH Let_def)
  next
    case False
    then have "\<not> (trim (linkText b) \<noteq> [] \<or> unwrapRedirect (hrefOrEmpty (linkHref b)) \<noteq> [])"
      by (simp add: wellFormedBlock_def)
    then show ?thesis using False by (auto simp: Cons.IH Let_def)
  qed
qed

lemma primaryEach_ranks:
  "map rank acc = map Suc [0 ..< length acc] \<Longrightarrow>
   map rank (primaryEach newURL now M bs acc) = map Suc [0 ..< length (primaryEach newURL now M bs acc)]"
proof (induction bs arbitrary: acc)
  case Nil
  then show ?case by simp
next
  case (Cons b bs)
  show ?case
    using Cons.prems by (auto simp: Let_def intro!: Cons.IH)
qed

lemma primaryEach_titles:
  "list_all (\<lambda>r. title r \<noteq> []) acc \<Longrightarrow>
   list_all (\<lambda>r. title r \<noteq> []) (primaryEach newURL now M bs acc)"
proof (induction bs arbitrary: acc)
  case Nil
  then show ?case by simp
next
  case (Cons b bs)
  show ?case
    using Cons.prems by (auto simp: Let_def orElse_Untitled intro!: Cons.IH)
qed

lemma fallbackEach_length:
  "length (fallbackEach newURL now M bs acc) =
     (if length acc \<ge> M then length acc else min M (length acc + length (filter wellFormedGeneric bs)))"
proof (induction bs arbitrary: acc)
  case Nil
  then show ?case by simp
next
  case (Cons b bs)
  show ?case
  proof (cases "wellFormedGeneric b")
    case True
    then have "trim (firstLinkText b) \<noteq> [] \<or> hrefOrEmpty (firstLinkHref b) \<noteq> []"
      by (simp add: wellFormedGeneric_def)
    then show ?thesis using True by (auto simp: Cons.IH Let_def)
  next
    case False
    then have "\<not> (trim (firstLinkText b) \<noteq> [] \<or> hrefOrEmpty (firstLinkHref b) \<noteq> [])"
      by (simp add: wellFormedGeneric_def)
    then show ?thesis using False by (auto simp: Cons.IH Let_def)
  qed
qed

lemma fallbackEach_ranks:
  "map rank acc = map Suc [0 ..< length acc] \<Longrightarrow>
   map rank (fallbackEach newURL now M bs acc) = map Suc [0 ..< length (fallbackEach newURL now M bs acc)]"
proof (induction bs arbitrary: acc)
  case Nil
  then show ?case by simp
next
  case (Cons b bs)
  show ?case
    using Cons.prems by (auto simp: Let_def intro!: Cons.IH)
qed

lemma fallbackEach_titles:
  "list_all (\<lambda>r. title r \<noteq> []) acc \<Longrightarrow>
   list_all (\<lambda>r. title r \<noteq> []) (fallbackEach newURL now M bs acc)"
proof (induction bs arbitrary: acc)
  case Nil
  then show ?case by simp
next
  case (Cons b bs)
  show ?case
    using Cons.prems by (auto simp: Let_def orElse_Untitled intro!: Cons.IH)
qed


lemma primaryEach_title_list:
  "map title (primaryEach newURL now M bs acc) =
     map title acc
     @ map (\<lambda>b. if trim (linkText b) = [] then ''Untitled'' else trim (linkText b))
         (take (M - length acc) (filter wellFormedBlock bs))"
proof (induction bs arbitrary: acc)
  case Nil
  then show ?case by simp
next
  case (Cons b bs)
  show ?case
  proof (cases "M \<le> length acc")
    case True
    then show ?thesis by simp
  next
    case full: False
    then obtain k where k: "M - length acc = Suc k" "M - Suc (length acc) = k"
      by (cases "M - length acc") auto
    show ?thesis
    proof (cases "wellFormedBlock b")
      case True
      then have "trim (linkText b) \<noteq> [] \<or> unwrapRedirect (hrefOrEmpty (linkHref b)) \<noteq> []"
        by (simp add: wellFormedBlock_def)
      then show ?thesis using True full k by (auto simp: Cons.IH Let_def orElse_def)
    next
      case False
      then have "\<not> (trim (linkText b) \<noteq> [] \<or> unwrapRedirect (hrefOrEmpty (linkHref b)) \<noteq> [])"
        by (simp add: wellFormedBlock_def)
      then show ?thesis using False full by (auto simp: Cons.IH Let_def)
    qed
  qed
qed

lemma fallbackEach_title_list:
  "map title (fallbackEach newURL now M bs acc) =
     map title acc
     @ map (\<lambda>b. if trim (firstLinkText b) = [] then ''Untitled'' else trim (firstLinkText b))
         (take (M - length acc) (filter wellFormedGeneric bs))"
proof (induction bs arbitrary: acc)
  case Nil
  then show ?case by simp
next
  case (Cons b bs)
  show ?case
  proof (cases "M \<le> length acc")
    case True
    then show ?thesis by simp
  next
    case full: False
    then obtain k where k: "M - length acc = Suc k" "M - Suc (length acc) = k"
      by (cases "M - length acc") auto
    show ?thesis
    proof (cases "wellFormedGeneric b")
      case True
      then have "trim (firstLinkText b) \<noteq> [] \<or> hrefOrEmpty (firstLinkHref b) \<noteq> []"
        by (simp add: wellFormedGeneric_def)
      then show ?thesis using True full k by (auto simp: Cons.IH Let_def orElse_def)
    next
      case False
      then have "\<not> (trim (firstLinkText b) \<noteq> [] \<or> hrefOrEmpty (firstLinkHref b) \<noteq> [])"
        by (simp add: wellFormedGeneric_def)
      then show ?thesis using False full by (auto simp: Cons.IH Let_def)
    qed
  qed
qed

text \<open>
  Claim C6.  Whatever the HTML and the limit \<open>M\<close>, the ranks of the results of
  parseSearchHtml are 1, 2, ..., k in this order, every title is non-empty, and there
  are at most \<open>M\<close> results.  The titles are those of the first \<open>M\<close> well-formed blocks,
  in document order: the trimmed text of the block's link, and \<open>Untitled\<close> when that
  text is empty; they come from the result blocks, or, when these give no result, from
  the blocks of the generic selector (the fallback strategy).  When the document holds
  more than \<open>M\<close> well-formed result blocks, there are exactly \<open>M\<close> results; the same
  holds on the fallback path, taken when no result block is well formed.
\<close>

theorem parseSearchHtml_ranks_titles_count:
  "map rank (parseSearchHtml newURL load now html (Some M))
     = [1 ..< length (parseSearchHtml newURL load now html (Some M)) + 1]
   \<and> (\<forall>r \<in> set (parseSearchHtml newURL load now html (Some M)). title r \<noteq> [])
   \<and> length (parseSearchHtml newURL load now html (Some M)) \<le> M
   \<and> (s \<noteq> [] \<longrightarrow>
        map title (parseSearchHtml newURL load now (JString s) (Some M)) =
          (if take M (filter wellFormedBlock (resultBlocks (load s))) \<noteq> []
           then map (\<lambda>b. if trim (linkText b) = [] then ''Untitled'' else trim (linkText b))
                  (take M (filter wellFormedBlock (resultBlocks (load s))))
           else map (\<lambda>b. if trim (firstLinkText b) = [] then ''Untitled''
                          else trim (firstLinkText b))
                  (take M (filter wellFormedGeneric (genericBlocks (load s))))))
   \<and> (s \<noteq> [] \<and> M < length (filter wellFormedBlock (resultBlocks (load s)))
        \<longrightarrow> length (parseSearchHtml newURL load now (JString s) (Some M)) = M)
   \<and> (s \<noteq> [] \<and> filter wellFormedBlock (resultBlocks (load s)) = []
          \<and> M < length (filter wellFormedGeneric (genericBlocks (load s)))
        \<longrightarrow> length (parseSearchHtml newURL load now (JString s) (Some M)) = M)"
proof -
  let ?P = "\<lambda>rs. map rank rs = map Suc [0 ..< length rs]"
  let ?T = "list_all (\<lambda>r. title r \<noteq> [])"
  have p0: "?P []" and t0: "?T []" by simp_all
  have pr: "?P (primaryEach newURL now M bs [])" for bs
    by (rule primaryEach_ranks) simp
  have fr: "?P (fallbackEach newURL now M bs [])" for bs
    by (rule fallbackEach_ranks) simp
  have pt: "?T (primaryEach newURL now M bs [])" for bs
    by (rule primaryEach_titles) simp
  have ft: "?T (fallbackEach newURL now M bs [])" for bs
    by (rule fallbackEach_titles) simp
  let ?rs = "parseSearchHtml newURL load now html (Some M)"
  have cases: "?rs = [] \<or> (\<exists>bs. ?rs = primaryEach newURL now M bs []) \<or> (\<exists>bs. ?rs = fallbackEach newURL now M bs [])"
    by (cases html) (auto simp: parseSearchHtml_def Let_def)
  have P: "?P ?rs" using cases pr fr by auto
  have T: "?T ?rs" using cases pt ft by auto
  have L: "length ?rs \<le> M"
    using cases by (auto simp: primaryEach_length fallbackEach_length)
  have c1: "map rank ?rs = [1 ..< length ?rs + 1]"
    using P by (simp add: map_Suc_upt)
  have c2: "\<forall>r \<in> set ?rs. title r \<noteq> []"
    using T by (simp add: list_all_iff)
  have c3: "s \<noteq> [] \<longrightarrow>
        map title (parseSearchHtml newURL load now (JString s) (Some M)) =
          (if take M (filter wellFormedBlock (resultBlocks (load s))) \<noteq> []
           then map (\<lambda>b. if trim (linkText b) = [] then ''Untitled'' else trim (linkText b))
                  (take M (filter wellFormedBlock (resultBlocks (load s))))
           else map (\<lambda>b. if trim (firstLinkText b) = [] then ''Untitled''
                          else trim (firstLinkText b))
                  (take M (filter wellFormedGeneric (genericBlocks (load s)))))"
  proof
    assume s: "s \<noteq> []"
    let ?p = "primaryEach newURL now M (resultBlocks (load s)) []"
    let ?wf = "take M (filter wellFormedBlock (resultBlocks (load s)))"
    have tp: "map title ?p =
                map (\<lambda>b. if trim (linkText b) = [] then ''Untitled'' else trim (linkText b)) ?wf"
      by (simp add: primaryEach_title_list)
    have e: "(?p = []) = (?wf = [])"
    proof -
      have "length ?p = length ?wf"
        using arg_cong [OF tp, of length] by simp
      then show ?thesis by (metis length_0_conv)
    qed
    show "map title (parseSearchHtml newURL load now (JString s) (Some M)) =
          (if ?wf \<noteq> []
           then map (\<lambda>b. if trim (linkText b) = [] then ''Untitled'' else trim (linkText b)) ?wf
           else map (\<lambda>b. if trim (firstLinkText b) = [] then ''Untitled''
                          else trim (firstLinkText b))
                  (take M (filter wellFormedGeneric (genericBlocks (load s)))))"
    proof (cases "?wf = []")
      case True
      then have "?p = []" using e by simp
      then show ?thesis
        using s True by (simp add: parseSearchHtml_def Let_def fallbackEach_title_list)
    next
      case False
      then have "?p \<noteq> []" using e by simp
      then show ?thesis
        using s False tp by (simp add: parseSearchHtml_def Let_def)
    qed
  qed
  have c4: "s \<noteq> [] \<and> M < length (filter wellFormedBlock (resultBlocks (load s)))
        \<longrightarrow> length (parseSearchHtml newURL load now (JString s) (Some M)) = M"
  proof (intro impI, elim conjE)
    assume s: "s \<noteq> []" and m: "M < length (filter wellFormedBlock (resultBlocks (load s)))"
    let ?p = "primaryEach newURL now M (resultBlocks (load s)) []"
    have lp: "length ?p = M" using m by (simp add: primaryEach_length)
    show "length (parseSearchHtml newURL load now (JString s) (Some M)) = M"
    proof (cases "M = 0")
      case True
      then show ?thesis using s lp by (simp add: parseSearchHtml_def Let_def fallbackEach_length)
    next
      case False
      then have "?p \<noteq> []" using lp by auto
      then show ?thesis using s lp by (simp add: parseSearchHtml_def Let_def)
    qed
  qed
  have c5: "s \<noteq> [] \<and> filter wellFormedBlock (resultBlocks (load s)) = []
          \<and> M < length (filter wellFormedGeneric (genericBlocks (load s)))
        \<longrightarrow> length (parseSearchHtml newURL load now (JString s) (Some M)) = M"
  proof (intro impI, elim conjE)
    assume s: "s \<noteq> []" and e: "filter wellFormedBlock (resultBlocks (load s)) = []"
      and m: "M < length (filter wellFormedGeneric (genericBlocks (load s)))"
    have "length (primaryEach newURL now M (resultBlocks (load s)) []) = 0"
      using e by (simp add: primaryEach_length)
    then have "primaryEach newURL now M (resultBlocks (load s)) [] = []" by simp
    then show "length (parseSearchHtml newURL load now (JString s) (Some M)) = M"
      using s m by (simp add: parseSearchHtml_def Let_def fallbackEach_length)
  qed
  show ?thesis using c1 c2 L c3 c4 c5 by blast
qed

text \<open>
  The claim on a document of four result blocks, the second of which has neither title
  nor URL and the third of which has a blank link text, with the limit 2.
\<close>

theorem parseSearchHtml_ranks_titles_count_witness:
  "length (parseSearchHtml (\<lambda>s. None) (\<lambda>s. mixed_blocks) ''2024-01-01T00:00:00.000Z''
             (JString ''<html>'') (Some 2)) = 2
   \<and> map rank (parseSearchHtml (\<lambda>s. None) (\<lambda>s. mixed_blocks) ''2024-01-01T00:00:00.000Z''
             (JString ''<html>'') (Some 2)) = [1, 2]
   \<and> map title (parseSearchHtml (\<lambda>s. None) (\<lambda>s. mixed_blocks) ''2024-01-01T00:00:00.000Z''
             (JString ''<html>'') (Some 2)) = [''Title'', ''Untitled'']"
proof -
  let ?rs = "parseSearchHtml (\<lambda>s. None) (\<lambda>s. mixed_blocks) ''2024-01-01T00:00:00.000Z''
               (JString ''<html>'') (Some 2)"
  have t1: "trim (linkText title_block) = ''Title''"
    and t2: "trim (linkText blank_block) = []"
    and t3: "trim (linkText untitled_block) = []"
    by (simp_all add: title_block_def blank_block_def untitled_block_def trim_def trimStart_def
        trimEnd_def whiteSpace_def)
  have wf: "wellFormedBlock title_block" "\<not> wellFormedBlock blank_block"
    "wellFormedBlock untitled_block"
    by (simp_all add: wellFormedBlock_def t1 t2 t3)
       (simp_all add: blank_block_def untitled_block_def hrefOrEmpty_def unwrapRedirect_def
          startsWith_def)
  have f: "filter wellFormedBlock (resultBlocks mixed_blocks) =
             [title_block, untitled_block, title_block]"
    by (simp add: mixed_blocks_def wf)
  have n: "(2::nat) < length (filter wellFormedBlock (resultBlocks mixed_blocks))"
    by (simp add: f)
  note inst = parseSearchHtml_ranks_titles_count
            [of "\<lambda>s. None" "\<lambda>s. mixed_blocks" "''2024-01-01T00:00:00.000Z''"
                "JString ''<html>''" 2 "''<html>''"]
  have l: "length ?rs = 2"
    using inst n by blast
  have r: "map rank ?rs = [1 ..< length ?rs + 1]"
    using inst by (rule conjunct1)
  have u: "[1 ..< 2 + 1] = [1, 2::nat]" by (simp add: upt_rec)
  have "map title ?rs =
          (if take 2 (filter wellFormedBlock (resultBlocks mixed_blocks)) \<noteq> []
           then map (\<lambda>b. if trim (linkText b) = [] then ''Untitled'' else trim (linkText b))
                  (take 2 (filter wellFormedBlock (resultBlocks mixed_blocks)))
           else map (\<lambda>b. if trim (firstLinkText b) = [] then ''Untitled''
                          else trim (firstLinkText b))
                  (take 2 (filter wellFormedGeneric (genericBlocks mixed_blocks))))"
    using inst by blast
  then have t: "map title ?rs = [''Title'', ''Untitled'']"
    by (simp add: f t1 t3)
  have "map rank ?rs = [1, 2]" using r unfolding l u .
  then show ?thesis using l t by simp
qed

section \<open>Properties of the cache\<close>

lemma cache_set_fresh_keys:
  assumes "k \<notin> set (cacheKeys c)"
  shows "cacheKeys (cache_set now k v c) =
           (if cacheKeys c \<noteq> [] \<and> length (cacheKeys c) = lruMax c
            then tl (cacheKeys c) @ [k] else cacheKeys c @ [k])"
  using assms
  by (simp add: cache_set_def LRUCache_set_def cacheKeys_def Let_def map_tl)

lemma cache_set_max: "lruMax (cache_set now k v c) = lruMax c"
  by (simp add: cache_set_def LRUCache_set_def Let_def)

lemma window_step:
  assumes "0 < M"
  shows "(if drop (length pre - M) pre \<noteq> [] \<and> length (drop (length pre - M) pre) = M
          then tl (drop (length pre - M) pre) @ [k] else drop (length pre - M) pre @ [k])
         = drop (length (pre @ [k]) - M) (pre @ [k])"
proof (cases "length pre < M")
  case True
  then show ?thesis by simp
next
  case False
  then have "length (drop (length pre - M) pre) = M" by simp
  moreover have "drop (length pre - M) pre \<noteq> []" using False assms by auto
  moreover have "tl (drop (length pre - M) pre) = drop (Suc (length pre - M)) pre"
    by (simp add: drop_Suc tl_drop)
  moreover have "Suc (length pre - M) = Suc (length pre) - M" using False by simp
  ultimately show ?thesis using False by simp
qed

lemma cache_run_keys:
  assumes "0 < lruMax c" and "\<not> list_ex isGet ops"
    and "cacheKeys c = drop (length pre - lruMax c) pre"
    and "distinct (pre @ insertedKeys ops)"
  shows "cacheKeys (cache_run ops c) =
           drop (length (pre @ insertedKeys ops) - lruMax c) (pre @ insertedKeys ops)
         \<and> lruMax (cache_run ops c) = lruMax c"
  using assms
proof (induction ops arbitrary: c pre)
  case Nil
  then show ?case by (simp add: cache_run_def insertedKeys_def)
next
  case (Cons op ops)
  obtain now o' where op: "op = (now, o')" by (cases op)
  show ?case
  proof (cases o')
    case (OpSet k v)
    let ?c = "cache_set now k v c"
    have ins: "insertedKeys ((now, OpSet k v) # ops) = k # insertedKeys ops"
      by (simp add: insertedKeys_def)
    have dist: "distinct (pre @ k # insertedKeys ops)"
      using Cons.prems(4) by (simp add: op OpSet ins)
    have fresh: "k \<notin> set (cacheKeys c)"
      using Cons.prems(3) dist by (auto dest: in_set_dropD)
    have "cacheKeys ?c =
            (if cacheKeys c \<noteq> [] \<and> length (cacheKeys c) = lruMax c
             then tl (cacheKeys c) @ [k] else cacheKeys c @ [k])"
      using fresh by (rule cache_set_fresh_keys)
    also have "\<dots> = drop (length (pre @ [k]) - lruMax c) (pre @ [k])"
      unfolding Cons.prems(3) using Cons.prems(1) by (rule window_step)
    finally have keys: "cacheKeys ?c = drop (length (pre @ [k]) - lruMax c) (pre @ [k])" .
    have "cacheKeys (cache_run ops ?c) =
            drop (length ((pre @ [k]) @ insertedKeys ops) - lruMax ?c) ((pre @ [k]) @ insertedKeys ops)
          \<and> lruMax (cache_run ops ?c) = lruMax ?c"
    proof (rule Cons.IH)
      show "0 < lruMax ?c" using Cons.prems(1) by (simp add: cache_set_max)
      show "\<not> list_ex isGet ops" using Cons.prems(2) by simp
      show "cacheKeys ?c = drop (length (pre @ [k]) - lruMax ?c) (pre @ [k])"
        using keys by (simp add: cache_set_max)
      show "distinct ((pre @ [k]) @ insertedKeys ops)"
        using dist by simp
    qed
    then show ?thesis
      by (simp add: cache_run_def op OpSet ins cache_set_max)
  next
    case (OpGet k)
    then show ?thesis using Cons.prems(2) op by simp
  next
    case (OpHas k)
    have ins: "insertedKeys ((now, OpHas k) # ops) = insertedKeys ops"
      by (simp add: insertedKeys_def)
    have "cacheKeys (cache_run ops c) =
            drop (length (pre @ insertedKeys ops) - lruMax c) (pre @ insertedKeys ops)
          \<and> lruMax (cache_run ops c) = lruMax c"
      using Cons.prems by (intro Cons.IH) (simp_all add: op OpHas ins)
    then show ?thesis by (simp add: cache_run_def op OpHas ins)
  qed
qed

lemma cache_has_absent: "k \<notin> set (cacheKeys c) \<Longrightarrow> \<not> cache_has now k c"
proof -
  assume "k \<notin> set (cacheKeys c)"
  then have "find (\<lambda>e. fst e = k) (lruEntries c) = None"
    by (force simp: find_None_iff cacheKeys_def)
  then show ?thesis by (simp add: cache_has_def LRUCache_has_def)
qed

text \<open>
  Claim C2, as amended.  On a cache created with a capacity \<open>maxSize\<close> of at least 1,
  a run that inserts \<open>maxSize + 1\<close> distinct keys and reads in between with \<open>has\<close> only
  leaves exactly \<open>maxSize\<close> entries, those of all keys but the first inserted, which is
  evicted.  A \<open>get\<close> between the insertions refreshes the recency of the entry it reads,
  so the statement leaves runs with \<open>get\<close> out.
\<close>

theorem cache_insertion_order_eviction:
  assumes "createCache (Some maxSize) ttlOpt = Inr c" and "0 < maxSize"
    and "\<not> list_ex isGet ops"
    and "distinct (insertedKeys ops)" and "length (insertedKeys ops) = maxSize + 1"
  shows "cache_size (cache_run ops c) = maxSize
         \<and> cacheKeys (cache_run ops c) = tl (insertedKeys ops)
         \<and> \<not> cache_has now (hd (insertedKeys ops)) (cache_run ops c)"
proof -
  have c: "lruMax c = maxSize" "lruEntries c = []"
    using assms(1) by (auto simp: createCache_def LRUCache_new_def Let_def split: if_splits)
  have "cacheKeys (cache_run ops c) =
           drop (length ([] @ insertedKeys ops) - lruMax c) ([] @ insertedKeys ops)
         \<and> lruMax (cache_run ops c) = lruMax c"
    by (rule cache_run_keys) (use assms c in \<open>simp_all add: cacheKeys_def\<close>)
  then have keys: "cacheKeys (cache_run ops c) = tl (insertedKeys ops)"
    using assms(5) c by (simp add: drop_Suc)
  obtain k ks where ks: "insertedKeys ops = k # ks"
    using assms(5) by (cases "insertedKeys ops") auto
  have "hd (insertedKeys ops) \<notin> set (cacheKeys (cache_run ops c))"
    using assms(4) by (simp add: keys ks)
  then have "\<not> cache_has now (hd (insertedKeys ops)) (cache_run ops c)"
    by (rule cache_has_absent)
  moreover have "cache_size (cache_run ops c) = maxSize"
    using keys assms(5) by (simp add: cache_size_def LRUCache_size_def cacheKeys_def [symmetric] del: length_map
        add: length_map [symmetric, of _ fst])
  ultimately show ?thesis using keys by simp
qed

theorem cache_insertion_order_eviction_witness:
  "cache_size (cache_run run_with_has cache_of_two) = 2
   \<and> cacheKeys (cache_run run_with_has cache_of_two) = [''b'', ''c'']
   \<and> \<not> cache_has 5 ''a'' (cache_run run_with_has cache_of_two)"
proof -
  have c: "createCache (Some 2) None = Inr cache_of_two"
    by (simp add: createCache_def LRUCache_new_def cache_of_two_def)
  have k: "insertedKeys run_with_has = [''a'', ''b'', ''c'']"
    by (simp add: insertedKeys_def run_with_has_def)
  have g: "\<not> list_ex isGet run_with_has"
    by (simp add: run_with_has_def)
  show ?thesis
    using cache_insertion_order_eviction [OF c _ g, of 5] k by simp
qed

text \<open>
  Claim C2 as stated fails when an entry is read with \<open>get\<close> between the insertions: on
  a cache of capacity 2, after inserting \<open>a\<close> and \<open>b\<close>, reading \<open>a\<close> and inserting \<open>c\<close>,
  the first-inserted key \<open>a\<close> is still there and \<open>b\<close> has been evicted.
\<close>

theorem cache_get_refreshes_recency:
  "createCache (Some 2) None = Inr cache_of_two
   \<and> insertedKeys run_with_get = [''a'', ''b'', ''c'']
   \<and> cacheKeys (cache_run run_with_get cache_of_two) = [''a'', ''c'']
   \<and> cache_has 5 ''a'' (cache_run run_with_get cache_of_two)
   \<and> \<not> cache_has 5 ''b'' (cache_run run_with_get cache_of_two)"
  by (simp add: createCache_def LRUCache_new_def cache_of_two_def insertedKeys_def
      run_with_get_def cache_run_def cache_set_def cache_get_def cache_has_def
      LRUCache_set_def LRUCache_get_def LRUCache_has_def cacheKeys_def isStale_def Let_def)

section \<open>Properties of fetchHtml\<close>


lemma sleep_frame:
  "rateLimitMap (sleep ms w) = rateLimitMap w" "defaultCache (sleep ms w) = defaultCache w"
  "map snd (events (sleep ms w)) = map snd (events w) @ [Sleep ms]"
  by (simp_all add: sleep_def)
















section \<open>Properties of the rate limit\<close>

lemma extendsWorld_iff:
  "extendsWorld w w' =
     ((\<exists>new. events w' = events w @ new \<and> (\<forall>ev \<in> set new. clock w \<le> fst ev))
      \<and> clock w \<le> clock w' \<and> rateLimitMap w' = rateLimitMap w \<and> defaultCache w' = defaultCache w)"
proof -
  have "(take (length (events w)) (events w') = events w
           \<and> list_all (\<lambda>ev. clock w \<le> fst ev) (newEvents w w'))
        = (\<exists>new. events w' = events w @ new \<and> (\<forall>ev \<in> set new. clock w \<le> fst ev))"
  proof
    assume a: "take (length (events w)) (events w') = events w
           \<and> list_all (\<lambda>ev. clock w \<le> fst ev) (newEvents w w')"
    have "events w' = events w @ newEvents w w'"
      using a append_take_drop_id [of "length (events w)" "events w'"]
      by (simp add: newEvents_def)
    then show "\<exists>new. events w' = events w @ new \<and> (\<forall>ev \<in> set new. clock w \<le> fst ev)"
      using a by (auto simp: list_all_iff)
  next
    assume "\<exists>new. events w' = events w @ new \<and> (\<forall>ev \<in> set new. clock w \<le> fst ev)"
    then show "take (length (events w)) (events w') = events w
           \<and> list_all (\<lambda>ev. clock w \<le> fst ev) (newEvents w w')"
      by (auto simp: newEvents_def list_all_iff)
  qed
  then show ?thesis by (auto simp: extendsWorld_def)
qed

lemma extendsWorld_refl: "extendsWorld w w"
  by (simp add: extendsWorld_iff)

lemma extendsWorld_trans:
  assumes "extendsWorld w w1" and "extendsWorld w1 w2"
  shows "extendsWorld w w2"
proof -
  obtain n1 where n1: "events w1 = events w @ n1" "\<forall>ev \<in> set n1. clock w \<le> fst ev"
    using assms(1) by (auto simp: extendsWorld_iff)
  obtain n2 where n2: "events w2 = events w1 @ n2" "\<forall>ev \<in> set n2. clock w1 \<le> fst ev"
    using assms(2) by (auto simp: extendsWorld_iff)
  have c: "clock w \<le> clock w1" "clock w1 \<le> clock w2"
    using assms by (auto simp: extendsWorld_iff)
  have "events w2 = events w @ (n1 @ n2)" using n1 n2 by simp
  moreover have "\<forall>ev \<in> set (n1 @ n2). clock w \<le> fst ev"
    using n1(2) n2(2) c by fastforce
  ultimately have "\<exists>new. events w2 = events w @ new \<and> (\<forall>ev \<in> set new. clock w \<le> fst ev)"
    by blast
  then show ?thesis
    using assms c by (simp add: extendsWorld_iff)
qed

lemma extendsWorld_sleep: "extendsWorld w (sleep ms w)"
  by (simp add: extendsWorld_iff sleep_def)

lemma extendsWorld_platformFetch: "extendsWorld w (snd (platformFetch net timeout nm u w))"
  by (simp add: extendsWorld_iff platformFetch_def Let_def)

lemma extendsWorld_fetchAttempt: "extendsWorld w (snd (fetchAttempt net timeout u w))"
  using extendsWorld_platformFetch [of w net timeout "''AbortError''" u]
  by (simp add: fetchAttempt_def case_prod_unfold Let_def)

lemma extendsWorld_fetchRobotsTxt: "extendsWorld w (snd (fetchRobotsTxt newURL net baseUrl ua w))"
proof (cases "newURL baseUrl")
  case None
  then show ?thesis by (simp add: fetchRobotsTxt_def extendsWorld_refl)
next
  case (Some base)
  have "snd (fetchRobotsTxt newURL net baseUrl ua w) =
          snd (platformFetch net 5000 ''TimeoutError'' (robotsUrlOf base) w)"
    by (simp add: fetchRobotsTxt_def Some case_prod_unfold Let_def
        split: fetch_outcome.split sum.split)
  then show ?thesis by (simp add: extendsWorld_platformFetch)
qed

lemma extendsWorld_fetchLoop:
  "extendsWorld w (snd (fetchLoop net u timeout retries rd attempt le w))"
proof (induction "Suc retries - attempt" arbitrary: attempt le w)
  case 0
  then have "\<not> attempt \<le> retries" by simp
  then have "snd (fetchLoop net u timeout retries rd attempt le w) = w"
    by (simp add: fetchLoop.simps [of net u timeout retries rd attempt] split: option.split)
  then show ?case by (simp add: extendsWorld_refl)
next
  case (Suc k)
  then have le: "attempt \<le> retries" and k: "k = Suc retries - Suc attempt" by simp_all
  obtain r w1 where fa: "fetchAttempt net timeout u w = (r, w1)"
    by (cases "fetchAttempt net timeout u w")
  have e1: "extendsWorld w w1"
    using extendsWorld_fetchAttempt [of w net timeout u] fa by simp
  show ?case
  proof (cases r)
    case (Inr html)
    then show ?thesis
      using le e1 by (simp add: fetchLoop.simps [of net u timeout retries rd attempt] fa)
  next
    case (Inl err)
    show ?thesis
    proof (cases "notRetried err")
      case True
      then show ?thesis
        using le e1 by (simp add: fetchLoop.simps [of net u timeout retries rd attempt] fa Inl)
    next
      case False
      let ?w2 = "if attempt < retries then sleep (rd * 2 ^ attempt) w1 else w1"
      have e2: "extendsWorld w1 ?w2"
        by (simp add: extendsWorld_sleep extendsWorld_refl)
      have e3: "extendsWorld ?w2 (snd (fetchLoop net u timeout retries rd (Suc attempt) (Some err) ?w2))"
        by (rule Suc.hyps(1)) (simp add: k)
      have "snd (fetchLoop net u timeout retries rd attempt le w) =
              snd (fetchLoop net u timeout retries rd (Suc attempt) (Some err) ?w2)"
        using le False by (simp add: fetchLoop.simps [of net u timeout retries rd attempt] fa Inl)
      then show ?thesis
        using extendsWorld_trans [OF e1 extendsWorld_trans [OF e2 e3]] by simp
    qed
  qed
qed

lemma extendsWorld_fetchHtml: "extendsWorld w (snd (fetchHtml newURL net u options w))"
proof (cases "newURL u")
  case None
  then show ?thesis by (simp add: fetchHtml_def extendsWorld_refl)
next
  case (Some urlObj)
  show ?thesis
  proof (cases "checkRobotsOf options")
    case False
    then show ?thesis
      by (simp add: fetchHtml_def Some Let_def extendsWorld_fetchLoop)
  next
    case True
    obtain rt w1 where fr: "fetchRobotsTxt newURL net (baseUrlOf urlObj) (userAgentOf options) w = (rt, w1)"
      by (cases "fetchRobotsTxt newURL net (baseUrlOf urlObj) (userAgentOf options) w")
    have e1: "extendsWorld w w1"
      using extendsWorld_fetchRobotsTxt [of w newURL net "baseUrlOf urlObj" "userAgentOf options"] fr
      by simp
    have e2: "extendsWorld w1 (snd (fetchLoop net u (timeoutOf options) (retriesOf options) (retryDelayOf options) 0 None w1))"
      by (rule extendsWorld_fetchLoop)
    show ?thesis
      using True e1 extendsWorld_trans [OF e1 e2]
      by (simp add: fetchHtml_def Some Let_def fr)
  qed
qed

lemma enforceRateLimit_world:
  "clock (enforceRateLimit host rl w) = releaseTime w host rl"
  "events (enforceRateLimit host rl w) = events w @ waitEvents w host rl"
  "rateLimitMap (enforceRateLimit host rl w) = (rateLimitMap w)(host \<mapsto> trackerAfter w host rl)"
  "defaultCache (enforceRateLimit host rl w) = defaultCache w"
proof -
  show "clock (enforceRateLimit host rl w) = releaseTime w host rl"
    by (cases "rateLimitMap w host")
       (simp_all add: enforceRateLimit_def getRateLimitTracker_def Let_def sleep_def
         releaseTime_def lastRequestOf_def)
  show "events (enforceRateLimit host rl w) = events w @ waitEvents w host rl"
    by (cases "rateLimitMap w host")
       (simp_all add: enforceRateLimit_def getRateLimitTracker_def Let_def sleep_def
         lastRequestOf_def waitEvents_def)
  show "rateLimitMap (enforceRateLimit host rl w) = (rateLimitMap w)(host \<mapsto> trackerAfter w host rl)"
    by (cases "rateLimitMap w host")
       (simp_all add: enforceRateLimit_def getRateLimitTracker_def Let_def sleep_def
         releaseTime_def lastRequestOf_def trackerAfter_def ac_simps)
  show "defaultCache (enforceRateLimit host rl w) = defaultCache w"
    by (cases "rateLimitMap w host")
       (simp_all add: enforceRateLimit_def getRateLimitTracker_def Let_def sleep_def)
qed




section \<open>Properties of the search function\<close>

lemma find_append_fresh:
  "\<forall>x \<in> set xs. \<not> P x \<Longrightarrow> P e \<Longrightarrow> find P (xs @ [e]) = Some e"
  by (induction xs) auto

lemma cache_set_find:
  "find (\<lambda>e. fst e = k) (lruEntries (cache_set now k v c)) =
     Some (k, v, if lruTtl c \<noteq> 0 then now else 0)"
  and cache_set_ttl: "lruTtl (cache_set now k v c) = lruTtl c"
proof -
  let ?e = "(k, v, if lruTtl c \<noteq> 0 then now else 0)"
  have fresh: "k \<notin> set (map fst (lruEntries c)) \<Longrightarrow> \<forall>x \<in> set (lruEntries c). \<not> fst x = k"
    by auto
  have fresh_tl: "k \<notin> set (map fst (lruEntries c)) \<Longrightarrow> \<forall>x \<in> set (tl (lruEntries c)). \<not> fst x = k"
    by (cases "lruEntries c") auto
  show "find (\<lambda>e. fst e = k) (lruEntries (cache_set now k v c)) = Some ?e"
    unfolding cache_set_def LRUCache_set_def Let_def
    using fresh fresh_tl
    by (auto intro!: find_append_fresh)
  show "lruTtl (cache_set now k v c) = lruTtl c"
    by (simp add: cache_set_def LRUCache_set_def Let_def)
qed

lemma cache_get_ttl: "lruTtl (snd (cache_get now k c)) = lruTtl c"
  by (simp add: cache_get_def LRUCache_get_def split: option.split)

lemma searchDuckDuckGoHtml_cache:
  "defaultCache (snd (searchDuckDuckGoHtml newURL net q options w)) = defaultCache w"
proof -
  let ?w1 = "enforceRateLimit ''html.duckduckgo.com'' (rateLimitOf options) w"
  have "\<exists>fo. snd (searchDuckDuckGoHtml newURL net q options w) = snd (fetchHtml newURL net (searchUrl q) fo ?w1)"
    unfolding searchDuckDuckGoHtml_def Let_def rateLimitOf_def by (rule exI) (rule refl)
  then obtain fo where "snd (searchDuckDuckGoHtml newURL net q options w) = snd (fetchHtml newURL net (searchUrl q) fo ?w1)"
    by blast
  moreover have "defaultCache (snd (fetchHtml newURL net (searchUrl q) fo ?w1)) = defaultCache ?w1"
    using extendsWorld_fetchHtml [of ?w1 newURL net "searchUrl q" fo] by (simp add: extendsWorld_iff)
  ultimately show ?thesis by (simp add: enforceRateLimit_world)
qed

lemma fetchAndParse_stores:
  assumes "fst (fetchAndParse newURL load net now q options w) = Inr rs"
    and "rs \<noteq> []" and "useCacheOf options" and "defaultCache w = Some c"
  shows "\<exists>wf. snd (fetchAndParse newURL load net now q options w) =
               wf\<lparr>defaultCache := Some (cache_set (clock wf) (generateCacheKey q options) rs c)\<rparr>"
proof -
  let ?o = "\<lparr>ddg_userAgent = Some (searchUserAgentOf options),
             ddg_rateLimitMs = Some (searchRateLimitOf options),
             ddg_timeout = None, ddg_checkRobots = Some True\<rparr>"
  obtain res wf where s: "searchDuckDuckGoHtml newURL net q ?o w = (res, wf)"
    by (cases "searchDuckDuckGoHtml newURL net q ?o w")
  have dc: "defaultCache wf = Some c"
    using searchDuckDuckGoHtml_cache [of newURL net q ?o w] s assms(4) by simp
  show ?thesis
  proof (cases res)
    case (Inl e)
    then show ?thesis using assms(1) s by (simp add: fetchAndParse_def)
  next
    case (Inr html)
    then have "parseSearchHtml newURL load now (JString html) (Some (maxOf options)) = rs"
      using assms(1) s by (simp add: fetchAndParse_def Let_def split: if_splits)
    then have "snd (fetchAndParse newURL load net now q options w) =
                 wf\<lparr>defaultCache := Some (cache_set (clock wf) (generateCacheKey q options) rs c)\<rparr>"
      using assms(2,3) s Inr dc by (simp add: fetchAndParse_def Let_def defaultCache_set_def)
    then show ?thesis by blast
  qed
qed

lemma primaryEach_uncached:
  "list_all (\<lambda>r. cached r = None) acc \<Longrightarrow>
   list_all (\<lambda>r. cached r = None) (primaryEach newURL now M bs acc)"
proof (induction bs arbitrary: acc)
  case Nil
  then show ?case by simp
next
  case (Cons b bs)
  show ?case
    using Cons.prems by (auto simp: Let_def intro!: Cons.IH)
qed

lemma fallbackEach_uncached:
  "list_all (\<lambda>r. cached r = None) acc \<Longrightarrow>
   list_all (\<lambda>r. cached r = None) (fallbackEach newURL now M bs acc)"
proof (induction bs arbitrary: acc)
  case Nil
  then show ?case by simp
next
  case (Cons b bs)
  show ?case
    using Cons.prems by (auto simp: Let_def intro!: Cons.IH)
qed

lemma parseSearchHtml_uncached:
  "list_all (\<lambda>r. cached r = None) (parseSearchHtml newURL load now html maxOpt)"
proof -
  have p: "list_all (\<lambda>r. cached r = None) (primaryEach newURL now M bs [])" for M bs
    by (rule primaryEach_uncached) simp
  have f: "list_all (\<lambda>r. cached r = None) (fallbackEach newURL now M bs [])" for M bs
    by (rule fallbackEach_uncached) simp
  show ?thesis
    by (cases html) (auto simp: parseSearchHtml_def Let_def p f)
qed

lemma fetchAndParse_uncached:
  assumes "fst (fetchAndParse newURL load net now q options w) = Inr rs"
  shows "list_all (\<lambda>r. cached r = None) rs"
proof -
  have "\<exists>html. rs = parseSearchHtml newURL load now (JString html) (Some (maxOf options))"
    using assms
    by (auto simp: fetchAndParse_def Let_def case_prod_unfold split: sum.splits if_splits)
  then show ?thesis using parseSearchHtml_uncached by auto
qed

text \<open>
  After the initialisation the cache exists, and it holds a live entry for a key only
  if it did before.
\<close>

lemma initCache_world:
  assumes "initCache options w = Inr w1" and "useCacheOf options"
  shows "\<exists>c. defaultCache w1 = Some c \<and> w1 = w\<lparr>defaultCache := Some c\<rparr>
             \<and> (defaultCache_has key w1 \<longrightarrow> defaultCache_has key w)"
proof (cases "defaultCache w")
  case None
  then obtain c where c: "createCache (Some (cacheSizeOf options)) (Some (cacheTTLOf options)) = Inr c"
    and w1: "w1 = w\<lparr>defaultCache := Some c\<rparr>"
    using assms by (auto simp: initCache_def split: sum.splits)
  have "lruEntries c = []"
    using c by (auto simp: createCache_def LRUCache_new_def Let_def split: if_splits)
  then have "\<not> defaultCache_has key w1"
    by (simp add: defaultCache_has_def w1 cache_has_def LRUCache_has_def)
  then show ?thesis using w1 by simp
next
  case (Some c)
  then have "w1 = w" using assms by (simp add: initCache_def)
  then show ?thesis using Some by simp
qed

text \<open>
  Claim C1, as amended.  When a first call of \<open>search\<close> with caching enabled, not
  answered from the cache, succeeds with a non-empty result list (which is then stored),
  its results carry no \<open>cached\<close> flag; and a second call \<open>d\<close> milliseconds later, with
  the same query, the same \<open>max\<close> and the same effective \<open>useInstantApi\<close> and with
  caching enabled, made before the entry's TTL has elapsed, adds no request to the log
  and returns the first call's results with \<open>cached: true\<close> on each.
\<close>

theorem search_second_call_cached:
  assumes "fst (search newURL load net now (JString q) o1 w) = Inr rs"
    and "rs \<noteq> []" and "\<not> defaultCache_has (generateCacheKey q o1) w"
    and "useCacheOf o1" and "useCacheOf o2"
    and "so_max o2 = so_max o1" and "useInstantApiOf o2 = useInstantApiOf o1"
    and "cacheTtlOf (snd (search newURL load net now (JString q) o1 w)) = 0
         \<or> d \<le> int (cacheTtlOf (snd (search newURL load net now (JString q) o1 w)))"
  shows "list_all (\<lambda>r. cached r = None) rs
         \<and> fst (search newURL2 load2 net2 now2 (JString q) o2
                (later d (snd (search newURL load net now (JString q) o1 w))))
           = Inr (map (\<lambda>r. r\<lparr>cached := Some True\<rparr>) rs)
         \<and> events (snd (search newURL2 load2 net2 now2 (JString q) o2
                (later d (snd (search newURL load net now (JString q) o1 w)))))
           = events (snd (search newURL load net now (JString q) o1 w))"
proof -
  let ?first = "search newURL load net now (JString q) o1 w"
  let ?key = "generateCacheKey q o1"
  have valid: "\<not> invalidQuery (JString q)"
    using assms(1) by (auto simp: search_def)
  obtain w1 where w1: "initCache o1 w = Inr w1"
    using assms(1) valid by (cases "initCache o1 w") (auto simp: search_def)
  obtain c0 where c0: "defaultCache w1 = Some c0"
    and miss: "\<not> defaultCache_has ?key w1"
    using initCache_world [OF w1 assms(4), of ?key] assms(3) by blast
  have first: "?first = fetchAndParse newURL load net now q o1 w1"
    using valid w1 miss by (simp add: search_def)
  have fp: "fst (fetchAndParse newURL load net now q o1 w1) = Inr rs"
    using assms(1) first by simp
  have uncached: "list_all (\<lambda>r. cached r = None) rs"
    using fp by (rule fetchAndParse_uncached)
  obtain wf where wf: "snd ?first = wf\<lparr>defaultCache := Some (cache_set (clock wf) ?key rs c0)\<rparr>"
    using fetchAndParse_stores [of newURL load net now q o1 w1 rs c0] fp assms(2,4) first c0 by auto
  let ?c1 = "cache_set (clock wf) ?key rs c0"
  let ?e = "(?key, rs, if lruTtl c0 \<noteq> 0 then clock wf else 0)"
  let ?w2 = "later d (snd ?first)"
  have key2: "generateCacheKey q o2 = ?key"
    using assms(6,7) by (simp add: generateCacheKey_def useInstantApiOf_def)
  have dc2: "defaultCache ?w2 = Some ?c1"
    by (simp add: later_def wf)
  have init2: "initCache o2 ?w2 = Inr ?w2"
    by (simp add: initCache_def dc2)
  have clock2: "clock ?w2 = clock wf + d"
    by (simp add: later_def wf)
  have ttl: "lruTtl ?c1 = lruTtl c0" by (rule cache_set_ttl)
  have "cacheTtlOf (snd ?first) = lruTtl c0"
    by (simp add: cacheTtlOf_def wf ttl)
  then have fresh: "\<not> isStale (lruTtl ?c1) (clock wf + d) ?e"
    using assms(8) by (auto simp: isStale_def ttl)
  have fnd: "find (\<lambda>e. fst e = ?key) (lruEntries ?c1) = Some ?e"
    by (rule cache_set_find)
  have has2: "defaultCache_has (generateCacheKey q o2) ?w2"
    using fresh fnd
    by (simp add: defaultCache_has_def dc2 cache_has_def LRUCache_has_def key2 clock2)
  have get2: "fst (cache_get (clock ?w2) (generateCacheKey q o2) ?c1) = Some rs"
    using fresh fnd by (simp add: cache_get_def LRUCache_get_def key2 clock2)
  obtain c2 where c2: "cache_get (clock ?w2) (generateCacheKey q o2) ?c1 = (Some rs, c2)"
    using get2 by (cases "cache_get (clock ?w2) (generateCacheKey q o2) ?c1") auto
  have hit: "cacheHit (generateCacheKey q o2) ?w2 =
               (Inr (map (\<lambda>r. r\<lparr>cached := Some True\<rparr>) rs), ?w2\<lparr>defaultCache := Some c2\<rparr>)"
    using c2 by (simp add: cacheHit_def defaultCache_get_def dc2)
  have second: "search newURL2 load2 net2 now2 (JString q) o2 ?w2 =
                  (Inr (map (\<lambda>r. r\<lparr>cached := Some True\<rparr>) rs), ?w2\<lparr>defaultCache := Some c2\<rparr>)"
    using assms(5) valid init2 has2 hit by (simp add: search_def)
  show ?thesis
    unfolding second using uncached by (simp add: later_def)
qed

text \<open>
  The two calls of the cache test, 10 ms apart, on a cache whose entries live 60 ms.
\<close>

theorem search_second_call_cached_witness:
  "list_all (\<lambda>r. cached r = None) testResults
   \<and> fst (secondSearch 10 testOptions) = Inr (map (\<lambda>r. r\<lparr>cached := Some True\<rparr>) testResults)
   \<and> events (snd (secondSearch 10 testOptions)) = events (snd firstSearch)"
proof -
  let ?first = "search testParser (\<lambda>s. three_blocks) net200 ''2024-01-01T00:00:00.000Z''
                  (JString ''cached query'') testOptions world0"
  have f: "fst firstSearch = Inr testResults" by code_simp
  have t: "cacheTtlOf (snd firstSearch) = 60" by code_simp
  have f': "fst ?first = Inr testResults"
    using f by (simp add: firstSearch_def)
  have t': "cacheTtlOf (snd ?first) = 0 \<or> 10 \<le> int (cacheTtlOf (snd ?first))"
    using t by (simp add: firstSearch_def)
  have n: "testResults \<noteq> []"
    by (simp add: testResults_def)
  have b: "\<not> defaultCache_has (generateCacheKey ''cached query'' testOptions) world0"
    by (simp add: defaultCache_has_def world0_def)
  have u: "useCacheOf testOptions" by (simp add: useCacheOf_def testOptions_def)
  show ?thesis
    unfolding secondSearch_def firstSearch_def
    by (rule search_second_call_cached [OF f' n b u u refl refl t'])
qed

text \<open>
  Claim C1 as stated fails for a second call with the same query and \<open>max\<close> that comes
  after the TTL (60 ms in this run), and for one that differs in \<open>useInstantApi\<close>,
  which is part of the cache key: each adds the two requests of a fetch (robots.txt and
  the search page) to the two of the first call, and returns results without \<open>cached\<close>
  flag.
\<close>

theorem search_refetches_after_ttl:
  "fst firstSearch = Inr testResults
   \<and> requestCount (snd firstSearch) = 2
   \<and> so_max testOptions = Some 10 \<and> useCacheOf testOptions
   \<and> fst (secondSearch 61 testOptions) = Inr testResults
   \<and> requestCount (snd (secondSearch 61 testOptions)) = 4
   \<and> so_max (testOptions\<lparr>so_useInstantApi := Some True\<rparr>) = Some 10
   \<and> useCacheOf (testOptions\<lparr>so_useInstantApi := Some True\<rparr>)
   \<and> fst (secondSearch 0 (testOptions\<lparr>so_useInstantApi := Some True\<rparr>)) = Inr testResults
   \<and> requestCount (snd (secondSearch 0 (testOptions\<lparr>so_useInstantApi := Some True\<rparr>))) = 4"
  by code_simp

section \<open>The search URL and the redirect links\<close>

text \<open>
  Claim C7 at the query of the test suite: searchDuckDuckGoHtml asks for the URL in
  which encodeURIComponent has written each space as \<open>%20\<close>, not as \<open>+\<close>.
\<close>

theorem searchUrl_encodes_space_as_percent20:
  "searchUrl ''test query with spaces''
     = ''https://html.duckduckgo.com/html/?q=test%20query%20with%20spaces''
   \<and> map snd (events (snd (searchDuckDuckGoHtml
         [''https://html.duckduckgo.com/html/?q=test%20query%20with%20spaces''
            \<mapsto> ddgUrl ''test%20query%20with%20spaces'']
         net200 ''test query with spaces'' noRobots world0)))
     = [HttpGet ''https://html.duckduckgo.com/html/?q=test%20query%20with%20spaces'']"
  by code_simp

text \<open>
  Claim C8 at a link of the first redirect form with a parameter after \<open>uddg\<close>: the
  text after \<open>uddg=\<close> is decoded as a whole, so the URL handed to normalizeUrl still
  carries \<open>&rut=abc\<close>.  The second redirect form, and the fallback of the first, cut the
  value at the \<open>&\<close>.
\<close>

theorem unwrapRedirect_keeps_following_parameters:
  "unwrapRedirect ''/l/?uddg=https%3A%2F%2Fexample.com&rut=abc'' = ''https://example.com&rut=abc''
   \<and> unwrapRedirect ''/l/?kh=-1&uddg=https%3A%2F%2Fexample.com&rut=abc'' = ''https://example.com''
   \<and> unwrapRedirect ''/l/?uddg=https%3A%2F%2Fexample.com'' = ''https://example.com''
   \<and> map resultUrl (parseSearchHtml newURL (\<lambda>s. redirect_document) now (JString ''<html>'') (Some 10))
       = [normalizeUrl newURL (JString ''https://example.com&rut=abc'')]"
proof -
  have a: "unwrapRedirect ''/l/?uddg=https%3A%2F%2Fexample.com&rut=abc'' = ''https://example.com&rut=abc''"
    by code_simp
  have b: "unwrapRedirect ''/l/?kh=-1&uddg=https%3A%2F%2Fexample.com&rut=abc'' = ''https://example.com''"
    by code_simp
  have c: "unwrapRedirect ''/l/?uddg=https%3A%2F%2Fexample.com'' = ''https://example.com''"
    by code_simp
  have t: "trim ''Example'' = ''Example''" by code_simp
  have "map resultUrl (parseSearchHtml newURL (\<lambda>s. redirect_document) now (JString ''<html>'') (Some 10))
       = [normalizeUrl newURL (JString ''https://example.com&rut=abc'')]"
    by (simp add: parseSearchHtml_def redirect_document_def redirect_block_def Let_def
        hrefOrEmpty_def a t)
  then show ?thesis using a b c by simp
qed

end
